theory Spec2Isabelle
  imports Main "HOL-Library.Word"
begin

unbundle bit_operations_syntax

section \<open>Data model (rfidr\_state.h, rfidr\_error.h, rfidr\_txradio.h, rfidr\_rxradio.h)\<close>

datatype rfidr_state_t =
    IDLE_UNCONFIGURED
  | IDLE_CONFIGURED
  | INITIALIZING
  | SEARCHING_APP_SPECD_TAG
  | SEARCHING_LAST_INV_TAG
  | INVENTORYING
  | TESTING_DTC
  | PROGRAMMING_APP_SPECD_TAG
  | PROGRAMMING_LAST_INV_TAG
  | RECOVERING_WAVEFORM_MEMORY
  | RESET_SX1257_AND_FPGA
  | KILL_TAG
  | PROGRAMMING_KILL_PASSWD
  | TRACK_APP_SPECD_TAG
  | TRACK_LAST_INV_TAG

text \<open>The integer value the C compiler gives each enumerator of \<open>rfidr_state_t\<close>
  (declaration order, starting at 0); C uses it where an enumerator is read as a truth value.\<close>

fun rfidr_state_value :: "rfidr_state_t \<Rightarrow> nat" where
  "rfidr_state_value IDLE_UNCONFIGURED = 0"
| "rfidr_state_value IDLE_CONFIGURED = 1"
| "rfidr_state_value INITIALIZING = 2"
| "rfidr_state_value SEARCHING_APP_SPECD_TAG = 3"
| "rfidr_state_value SEARCHING_LAST_INV_TAG = 4"
| "rfidr_state_value INVENTORYING = 5"
| "rfidr_state_value TESTING_DTC = 6"
| "rfidr_state_value PROGRAMMING_APP_SPECD_TAG = 7"
| "rfidr_state_value PROGRAMMING_LAST_INV_TAG = 8"
| "rfidr_state_value RECOVERING_WAVEFORM_MEMORY = 9"
| "rfidr_state_value RESET_SX1257_AND_FPGA = 10"
| "rfidr_state_value KILL_TAG = 11"
| "rfidr_state_value PROGRAMMING_KILL_PASSWD = 12"
| "rfidr_state_value TRACK_APP_SPECD_TAG = 13"
| "rfidr_state_value TRACK_LAST_INV_TAG = 14"

datatype rfidr_error_t =
    RFIDR_SUCCESS
  | RFIDR_ERROR_SPI_WRITE_TX
  | RFIDR_ERROR_SPI_WRITE_SX1257_1
  | RFIDR_ERROR_SPI_WRITE_SX1257_2
  | RFIDR_ERROR_SPI_WRITE_SX1257_3
  | RFIDR_ERROR_SPI_WRITE_SX1257_4
  | RFIDR_ERROR_SPI_WRITE_SX1257_5
  | RFIDR_ERROR_BLE_PCKT1_SEND
  | RFIDR_ERROR_BLE_PCKT2_SEND
  | RFIDR_ERROR_READ_CHECK
  | RFIDR_ERROR_WAVE_MEM_1
  | RFIDR_ERROR_WAVE_MEM_2
  | RFIDR_ERROR_USER_MEM
  | RFIDR_ERROR_GENERAL

datatype rfidr_select_epc_type_t = APP_SPECD_EPC | FMW_SPECD_EPC | LAST_INV_EPC | DUMMYTAG_EPC | ZERO_EPC
datatype rfidr_select_packet_type_t = SEL_PACKET_NO_1 | SEL_PACKET_NO_2
datatype rfidr_select_target_t = TARGET_S0 | TARGET_S1 | TARGET_S2 | TARGET_S3 | TARGET_SL
datatype rfidr_select_action_t =
  ACTION_A0 | ACTION_A1 | ACTION_A2 | ACTION_A3 | ACTION_A4 | ACTION_A5 | ACTION_A6 | ACTION_A7
datatype rfidr_query_sel_t = SEL_ALL | SEL_NSL | SEL_PSL
datatype rfidr_query_session_t = SESSION_S0 | SESSION_S1 | SESSION_S2 | SESSION_S3
datatype rfidr_query_target_t = TARGET_A | TARGET_B
datatype rfidr_query_flagswap_t = FLAGSWAP_NO | FLAGSWAP_YES
datatype rfidr_target_epc_t = TARGET_APP_SPECD_EPC | TARGET_LAST_INV_EPC | TARGET_CAL_EPC | TARGET_PLL_EPC
datatype rfidr_ble_push_t = BLE_PUSH_MINIMAL | BLE_PUSH_SUPPLEMENT
datatype rfidr_read_rxram_type_t = READ_RXRAM_PLLCHECK | READ_RXRAM_REGULAR
datatype return_epc_t = RETURN_EPC_NO | RETURN_EPC_YES
datatype return_mag_t = RETURN_MAG_NO | RETURN_MAG_YES
datatype return_lna_gain_t = RETURN_LNA_GAIN_NO | RETURN_LNA_GAIN_YES
datatype rfidr_tracking_mode_t = TRACK_APP_SPECD | TRACK_LAST_INV
datatype rfidr_program_content_t = PROGRAM_NEW_EPC | PROGRAM_KILL_PWD | KILL_COMMAND

definition MAX_EPC_LENGTH_IN_BYTES :: nat where
  "MAX_EPC_LENGTH_IN_BYTES = 12"

text \<open>\<open>rfidr_return_t\<close>: the per-path result of a reader-tag exchange. The two EPC
  buffers are arrays of \<open>MAX_EPC_LENGTH_IN_BYTES\<close> bytes; the magnitudes are \<open>int32_t\<close>
  and are compared with \<open>sint\<close>.\<close>

record rfidr_return_t =
  i_pass :: bool
  q_pass :: bool
  i_epc :: "8 word list"
  q_epc :: "8 word list"
  i_lna_gain :: "8 word"
  q_lna_gain :: "8 word"
  i_main_mag :: "32 word"
  i_alt_mag :: "32 word"
  q_main_mag :: "32 word"
  q_alt_mag :: "32 word"

section \<open>The environment: hardware peer and application\<close>

text \<open>Every function of the firmware that the orchestration code calls on the SPI bridge,
  the radio, the GPIO block or the BLE stack is an interaction with the environment. Each
  interaction is appended to the \<open>trace\<close> of the world, and each interaction whose result
  the caller receives takes that result from the environment \<open>hw\<close>, indexed by the number
  of answers consumed so far (\<open>tick\<close>):
  \<^item> \<open>ans_err\<close>: the \<open>rfidr_error_t\<close> a driver call returns;
  \<^item> \<open>ans_nrf\<close>: the \<open>uint32_t\<close> status a BLE send returns;
  \<^item> \<open>ans_byte\<close>: the byte an SPI read delivers;
  \<^item> \<open>ans_flag\<close>: whether the flag a spin-wait polls (\<open>while(flag==false){}\<close>) is ever
    set by its interrupt handler.\<close>

record hw_env =
  ans_err :: "nat \<Rightarrow> rfidr_error_t"
  ans_nrf :: "nat \<Rightarrow> 32 word"
  ans_byte :: "nat \<Rightarrow> 8 word"
  ans_flag :: "nat \<Rightarrow> bool"

datatype call =
    set_select_target rfidr_select_target_t
  | set_select_action rfidr_select_action_t
  | set_query_sel rfidr_query_sel_t
  | set_query_session rfidr_query_session_t
  | set_query_target rfidr_query_target_t
  | set_query_q "8 word"
  | set_sx1257_pll_chk_mode
  | unset_sx1257_pll_chk_mode
  | load_select_packet_only rfidr_select_epc_type_t "8 word" rfidr_select_packet_type_t
  | load_query_packet_only rfidr_query_flagswap_t
  | load_query_adj_packet bool
  | load_query_rep_packet
  | load_write_packet_only_program_epc
  | load_write_packet_only_kill_password
  | load_write_packet_only_kill_command
  | set_radio_mode_search
  | set_radio_mode_inventory
  | set_radio_mode_program
  | set_use_i
  | set_use_q
  | set_use_select_pkt
  | set_use_kill_pkt
  | set_alt_radio_fsm_loop
  | set_end_radio_fsm_loop
  | set_go_radio_oneshot
  | set_irq_ack_oneshot
  | spi_cntrlr_write_sx1257_robust "8 word" "8 word"
  | spi_cntrlr_read_sx1257_robust "8 word"
  | read_length_app_specd_target_epc
  | set_last_inv_epc "8 word list"
  | rfidr_pull_and_check_read_data rfidr_target_epc_t
  | rfidr_push_data_over_ble rfidr_return_t rfidr_return_t "8 word" "8 word" "8 word" rfidr_ble_push_t

datatype event =
    Call call
  | PaEnable
  | PaDisable
  | Led1Enable
  | Led1Disable
  | Led1Toggle
  | SelAnt0
  | SpiRead "8 word"
  | HopSx1257Frequency "8 word"
  | SetSx1257Frequency "8 word"
  | ShortMessage string "int list"
  | LogMessage string
  | ErrorMessage string string rfidr_error_t
  | ReadStateSend rfidr_state_t
  | WaitIrq
  | WaitHvcReadState
  | WaitHvcPcktData1

text \<open>The file-local state of rfidr\_state.c and rfidr\_sx1257.c, the two GPIO outputs the
  claims mention, and the interaction log.\<close>

record world =
  m_rfidr_state :: rfidr_state_t
  m_rfidr_state_next :: rfidr_state_t
  m_dtc_state_flag :: bool
  m_track_tag_state_flag :: bool
  m_num_inv_tags_found :: "16 word"
  m_hopskip_nonce :: "8 word"
  m_sx1257_frequency_slot :: "8 word"
  pa_enabled :: bool
  led1 :: bool
  tick :: nat
  trace :: "event list"

text \<open>What a call does: it returns a value in a new world (\<open>Ret\<close>); it never returns
  because a polled flag is never set (\<open>Stuck\<close>); it never returns because
  \<open>APP_ERROR_CHECK\<close> resets the MCU (\<open>Reset\<close>); or the model ran out of the fuel
  that bounds a loop the source does not bound (\<open>OutOfFuel\<close>).\<close>

datatype 'a res = Ret 'a world | Stuck world | Reset world | OutOfFuel

type_synonym 'a prog = "world \<Rightarrow> 'a res"

definition then_do :: "'a prog \<Rightarrow> ('a \<Rightarrow> 'b prog) \<Rightarrow> 'b prog" where
  "then_do m k w = (case m w of
      Ret a w' \<Rightarrow> k a w'
    | Stuck w' \<Rightarrow> Stuck w'
    | Reset w' \<Rightarrow> Reset w'
    | OutOfFuel \<Rightarrow> OutOfFuel)"

text \<open>A statement that only changes the world, followed by the rest of the code.\<close>

definition modify :: "(world \<Rightarrow> world) \<Rightarrow> 'a prog \<Rightarrow> 'a prog" where
  "modify f k w = k (f w)"

definition emit :: "event \<Rightarrow> world \<Rightarrow> world" where
  "emit e w = w\<lparr>trace := trace w @ [e]\<rparr>"

definition consume :: "world \<Rightarrow> world" where
  "consume w = w\<lparr>tick := tick w + 1\<rparr>"

text \<open>A driver call whose body is SPI or BLE traffic: logged, result from the environment.\<close>

definition driver :: "hw_env \<Rightarrow> call \<Rightarrow> rfidr_error_t prog" where
  "driver hw c w = Ret (ans_err hw (tick w)) (consume (emit (Call c) w))"

text \<open>\<open>while(flag == false){}\<close> on a flag that only an interrupt handler sets.\<close>

definition spin_wait :: "hw_env \<Rightarrow> event \<Rightarrow> unit prog" where
  "spin_wait hw e w =
     (if ans_flag hw (tick w) then Ret () (consume (emit e w)) else Stuck (consume (emit e w)))"

text \<open>\<open>spi_cntrlr_set_tx; spi_cntrlr_send_recv; spi_cntrlr_read_rx\<close>: one byte from the bus.\<close>

definition spi_read :: "hw_env \<Rightarrow> (8 word) prog" where
  "spi_read hw w = Ret (ans_byte hw (tick w)) (consume (emit (SpiRead (ans_byte hw (tick w))) w))"

subsection \<open>rfidr\_gpio.c\<close>

definition rfidr_enable_pa :: "rfidr_error_t prog" where
  "rfidr_enable_pa w = Ret RFIDR_SUCCESS (emit PaEnable (w\<lparr>pa_enabled := True\<rparr>))"

definition rfidr_disable_pa :: "rfidr_error_t prog" where
  "rfidr_disable_pa w = Ret RFIDR_SUCCESS (emit PaDisable (w\<lparr>pa_enabled := False\<rparr>))"

definition rfidr_enable_led1 :: "world \<Rightarrow> world" where
  "rfidr_enable_led1 w = emit Led1Enable (w\<lparr>led1 := True\<rparr>)"

definition rfidr_disable_led1 :: "world \<Rightarrow> world" where
  "rfidr_disable_led1 w = emit Led1Disable (w\<lparr>led1 := False\<rparr>)"

definition rfidr_toggle_led1 :: "world \<Rightarrow> world" where
  "rfidr_toggle_led1 w = emit Led1Toggle (w\<lparr>led1 := (\<not> led1 w)\<rparr>)"

subsection \<open>Messages to the application\<close>

definition NRF_SUCCESS :: "32 word" where
  "NRF_SUCCESS = 0"

definition NRF_ERROR_INVALID_STATE :: "32 word" where
  "NRF_ERROR_INVALID_STATE = 8"

text \<open>\<open>send_short_message\<close> hands the text to \<open>rfidr_error_complete_message_send\<close>,
  whose status it ignores. The text, which callers build with \<open>sprintf\<close>, is kept as the
  format string and its arguments; its cut to 20 characters is not modelled.\<close>

definition send_short_message :: "hw_env \<Rightarrow> string \<Rightarrow> int list \<Rightarrow> world \<Rightarrow> world" where
  "send_short_message hw fmt args w = consume (emit (ShortMessage fmt args) w)"

definition send_log_message :: "hw_env \<Rightarrow> string \<Rightarrow> world \<Rightarrow> world" where
  "send_log_message hw txt w = consume (emit (LogMessage (take 240 txt)) w)"

text \<open>\<open>rfidr_state_bookend_function\<close>: send the state to the application, pass a status
  other than \<open>NRF_ERROR_INVALID_STATE\<close> to \<open>APP_ERROR_CHECK\<close> (which resets the MCU on
  anything but \<open>NRF_SUCCESS\<close>), then spin until the indication is confirmed.\<close>

definition rfidr_state_bookend_function :: "hw_env \<Rightarrow> unit prog" where
  "rfidr_state_bookend_function hw w =
     (let nrf_error_code = ans_nrf hw (tick w);
          w1 = consume (emit (ReadStateSend (m_rfidr_state w)) w)
      in if nrf_error_code \<noteq> NRF_ERROR_INVALID_STATE \<and> nrf_error_code \<noteq> NRF_SUCCESS
         then Reset w1
         else spin_wait hw WaitHvcReadState w1)"

text \<open>\<open>handle_error\<close>: both input strings are cut to 116 characters; the PA is disabled;
  the message is sent (status ignored); both sticky flags are cleared; the state machine
  is forced to one of the idle states; the bookend function reports the state.\<close>

definition handle_error :: "hw_env \<Rightarrow> string \<Rightarrow> string \<Rightarrow> rfidr_error_t \<Rightarrow> unit prog" where
  "handle_error hw input_string_outer input_string_inner rfidr_error_code w =
     (let rfidr_outer_sanitize = take 116 input_string_outer;
          rfidr_inner_sanitize = take 116 input_string_inner
      in then_do rfidr_disable_pa (\<lambda>_ w1.
         let w2 = consume (emit (ErrorMessage rfidr_outer_sanitize rfidr_inner_sanitize rfidr_error_code) w1);
             w3 = w2\<lparr>m_track_tag_state_flag := False, m_dtc_state_flag := False\<rparr>;
             w4 = (if m_rfidr_state w3 = IDLE_UNCONFIGURED \<or> m_rfidr_state w3 = INITIALIZING
                   then (rfidr_disable_led1 w3)
                          \<lparr>m_rfidr_state_next := IDLE_UNCONFIGURED, m_rfidr_state := IDLE_UNCONFIGURED\<rparr>
                   else (rfidr_enable_led1 w3)
                          \<lparr>m_rfidr_state_next := IDLE_CONFIGURED, m_rfidr_state := IDLE_CONFIGURED\<rparr>)
         in rfidr_state_bookend_function hw w4) w)"

subsection \<open>\<open>write_rfidr_state_next\<close>\<close>

text \<open>The request filter called from the BLE write handler. In the
  \<open>RESET_SX1257_AND_FPGA\<close> case the last disjunct of the source's condition is the bare
  enumerator \<open>TRACK_LAST_INV_TAG\<close>, which C reads as the truth value of its integer.\<close>

definition write_rfidr_state_next :: "rfidr_state_t \<Rightarrow> world \<Rightarrow> world" where
  "write_rfidr_state_next l_rfidr_state_next w =
    (case l_rfidr_state_next of
       INITIALIZING \<Rightarrow>
         (if m_rfidr_state w = IDLE_UNCONFIGURED then w\<lparr>m_rfidr_state_next := INITIALIZING\<rparr>
          else if m_rfidr_state w = IDLE_CONFIGURED then w\<lparr>m_rfidr_state_next := m_rfidr_state w\<rparr>
          else w\<lparr>m_rfidr_state_next := m_rfidr_state w\<rparr>)
     | TRACK_APP_SPECD_TAG \<Rightarrow>
         (if m_rfidr_state w = IDLE_CONFIGURED
          then w\<lparr>m_track_tag_state_flag := True, m_rfidr_state_next := l_rfidr_state_next\<rparr>
          else if m_rfidr_state w = TRACK_APP_SPECD_TAG
          then w\<lparr>m_track_tag_state_flag := False, m_rfidr_state_next := m_rfidr_state w\<rparr>
          else w\<lparr>m_rfidr_state_next := m_rfidr_state w\<rparr>)
     | TRACK_LAST_INV_TAG \<Rightarrow>
         (if m_rfidr_state w = IDLE_CONFIGURED
          then w\<lparr>m_track_tag_state_flag := True, m_rfidr_state_next := l_rfidr_state_next\<rparr>
          else if m_rfidr_state w = TRACK_LAST_INV_TAG
          then w\<lparr>m_track_tag_state_flag := False, m_rfidr_state_next := m_rfidr_state w\<rparr>
          else w\<lparr>m_rfidr_state_next := m_rfidr_state w\<rparr>)
     | RESET_SX1257_AND_FPGA \<Rightarrow>
         (if m_rfidr_state w = IDLE_CONFIGURED \<or> m_rfidr_state w = IDLE_UNCONFIGURED
             \<or> m_rfidr_state w = TESTING_DTC \<or> m_rfidr_state w = TRACK_APP_SPECD_TAG
             \<or> rfidr_state_value TRACK_LAST_INV_TAG \<noteq> 0
          then w\<lparr>m_rfidr_state_next := l_rfidr_state_next\<rparr>
          else w\<lparr>m_rfidr_state_next := m_rfidr_state w\<rparr>)
     | IDLE_UNCONFIGURED \<Rightarrow> w
     | IDLE_CONFIGURED \<Rightarrow> w
     | _ \<Rightarrow>
         (if m_rfidr_state w = IDLE_CONFIGURED then w\<lparr>m_rfidr_state_next := l_rfidr_state_next\<rparr>
          else w\<lparr>m_rfidr_state_next := m_rfidr_state w\<rparr>))"

subsection \<open>Sequencing helpers\<close>

text \<open>\<open>rc = f(); if(rc != RFIDR_SUCCESS){ on_error } ...\<close>: the pattern after almost
  every driver call. \<open>fail_with\<close> is \<open>handle_error(...); return ret;\<close>.\<close>

definition checked :: "rfidr_error_t prog \<Rightarrow> (rfidr_error_t \<Rightarrow> 'a prog) \<Rightarrow> 'a prog \<Rightarrow> 'a prog" where
  "checked m on_error k = then_do m (\<lambda>rc. if rc \<noteq> RFIDR_SUCCESS then on_error rc else k)"

definition result_ignored :: "rfidr_error_t prog \<Rightarrow> 'a prog \<Rightarrow> 'a prog" where
  "result_ignored m k = then_do m (\<lambda>rc. k)"

definition fail_with :: "hw_env \<Rightarrow> string \<Rightarrow> string \<Rightarrow> rfidr_error_t \<Rightarrow> 'a \<Rightarrow> 'a prog" where
  "fail_with hw outer inner code ret = then_do (handle_error hw outer inner code) (\<lambda>u. Ret ret)"

text \<open>A \<open>for\<close> loop over a known index range. The body says how it was left: fall through
  to the next iteration, \<open>break\<close>, or \<open>return\<close> from the enclosing function. The
  loop-carried locals are threaded through as \<open>'s\<close>.\<close>

datatype 's ctl = Next 's | Break 's | Return rfidr_error_t 's

fun for_loop :: "'i list \<Rightarrow> ('i \<Rightarrow> 's \<Rightarrow> ('s ctl) prog) \<Rightarrow> 's \<Rightarrow> ('s ctl) prog" where
  "for_loop [] body s w = Ret (Next s) w"
| "for_loop (i # is) body s w =
     (case body i s w of
        Ret (Next s') w' \<Rightarrow> for_loop is body s' w'
      | other \<Rightarrow> other)"

subsection \<open>rfidr\_user.c: exit code and write counter\<close>

definition read_radio_exit_code :: "hw_env \<Rightarrow> (8 word) prog" where
  "read_radio_exit_code hw = then_do (spi_read hw) (\<lambda>recovery_byte. Ret (drop_bit 5 recovery_byte AND 7))"

definition read_radio_write_cntr :: "hw_env \<Rightarrow> (8 word) prog" where
  "read_radio_write_cntr hw = then_do (spi_read hw) (\<lambda>recovery_byte. Ret (drop_bit 0 recovery_byte AND 7))"

subsection \<open>rfidr\_sx1257.c: frequency slots\<close>

definition FREQUENCY_CODE_BASE :: "32 word" where
  "FREQUENCY_CODE_BASE = 0x00CB5555"

definition sx1257_frequency_decode :: "8 word \<Rightarrow> 32 word" where
  "sx1257_frequency_decode slot =
    (if slot = 0 then FREQUENCY_CODE_BASE - 0x0002AAAA
     else if slot = 1 then FREQUENCY_CODE_BASE - 0x000271C7
     else if slot = 2 then FREQUENCY_CODE_BASE - 0x000238E3
     else if slot = 3 then FREQUENCY_CODE_BASE - 0x00020000
     else if slot = 4 then FREQUENCY_CODE_BASE - 0x0001C71C
     else if slot = 5 then FREQUENCY_CODE_BASE - 0x00018E38
     else if slot = 6 then FREQUENCY_CODE_BASE - 0x00015555
     else if slot = 7 then FREQUENCY_CODE_BASE - 0x00011C71
     else if slot = 8 then FREQUENCY_CODE_BASE - 0x0000E38E
     else if slot = 9 then FREQUENCY_CODE_BASE - 0x0000AAAA
     else if slot = 10 then FREQUENCY_CODE_BASE - 0x000071C7
     else if slot = 11 then FREQUENCY_CODE_BASE - 0x000038E3
     else if slot = 12 then FREQUENCY_CODE_BASE + 0x00000000
     else if slot = 13 then FREQUENCY_CODE_BASE + 0x000038E3
     else if slot = 14 then FREQUENCY_CODE_BASE + 0x000071C7
     else if slot = 15 then FREQUENCY_CODE_BASE + 0x0000AAAA
     else if slot = 16 then FREQUENCY_CODE_BASE + 0x0000E38E
     else if slot = 17 then FREQUENCY_CODE_BASE + 0x00011C71
     else if slot = 18 then FREQUENCY_CODE_BASE + 0x00015555
     else if slot = 19 then FREQUENCY_CODE_BASE + 0x00018E38
     else if slot = 20 then FREQUENCY_CODE_BASE + 0x0001C71C
     else if slot = 21 then FREQUENCY_CODE_BASE + 0x00020000
     else if slot = 22 then FREQUENCY_CODE_BASE + 0x000238E3
     else if slot = 23 then FREQUENCY_CODE_BASE + 0x000271C7
     else if slot = 24 then FREQUENCY_CODE_BASE + 0x0002AAAA
     else FREQUENCY_CODE_BASE + 0x00000000)"

text \<open>The six register writes that \<open>hop_sx1257_frequency\<close> and \<open>set_sx1257_frequency\<close>
  both make (RX then TX frequency, most significant byte first), each returning its error
  at once.\<close>

definition write_frequency_registers :: "hw_env \<Rightarrow> 32 word \<Rightarrow> rfidr_error_t prog" where
  "write_frequency_registers hw sx1257_freq_code =
     (let msb = (ucast (drop_bit 16 sx1257_freq_code AND 255) :: 8 word);
          mid = (ucast (drop_bit 8 sx1257_freq_code AND 255) :: 8 word);
          lsb = (ucast (drop_bit 0 sx1257_freq_code AND 255) :: 8 word)
      in checked (driver hw (spi_cntrlr_write_sx1257_robust 0x01 msb)) Ret
        (checked (driver hw (spi_cntrlr_write_sx1257_robust 0x02 mid)) Ret
        (checked (driver hw (spi_cntrlr_write_sx1257_robust 0x03 lsb)) Ret
        (checked (driver hw (spi_cntrlr_write_sx1257_robust 0x04 msb)) Ret
        (checked (driver hw (spi_cntrlr_write_sx1257_robust 0x05 mid)) Ret
        (checked (driver hw (spi_cntrlr_write_sx1257_robust 0x06 lsb)) Ret
        (Ret RFIDR_SUCCESS)))))))"

text \<open>The slot update of \<open>hop_sx1257_frequency\<close>: \<open>(m_sx1257_frequency_slot+7) % 25\<close>,
  computed in \<open>int\<close> (no 8-bit wrap before the remainder) and stored back in a byte.\<close>

definition hop_slot :: "8 word \<Rightarrow> 8 word" where
  "hop_slot slot = of_nat ((unat slot + 7) mod 25)"

text \<open>\<open>hop_sx1257_frequency\<close> returns the error code and, through its pointer argument,
  the new slot; the pointer is written before the first register write.\<close>

definition hop_sx1257_frequency :: "hw_env \<Rightarrow> (rfidr_error_t \<times> 8 word) prog" where
  "hop_sx1257_frequency hw w =
     (let slot = hop_slot (m_sx1257_frequency_slot w);
          w1 = emit (HopSx1257Frequency slot) (w\<lparr>m_sx1257_frequency_slot := slot\<rparr>)
      in then_do (write_frequency_registers hw (sx1257_frequency_decode slot))
           (\<lambda>error_code. Ret (error_code, slot)) w1)"

definition set_sx1257_frequency :: "hw_env \<Rightarrow> 8 word \<Rightarrow> rfidr_error_t prog" where
  "set_sx1257_frequency hw sx1257_frequency_slot =
     modify (emit (SetSx1257Frequency sx1257_frequency_slot))
       (write_frequency_registers hw (sx1257_frequency_decode sx1257_frequency_slot))"

definition set_sx1257_lna_gain :: "hw_env \<Rightarrow> 8 word \<Rightarrow> rfidr_error_t prog" where
  "set_sx1257_lna_gain hw lna_gain =
     checked (driver hw (spi_cntrlr_write_sx1257_robust 0x0C lna_gain)) Ret (Ret RFIDR_SUCCESS)"

subsection \<open>\<open>end_inventory\<close>\<close>

definition end_inventory :: "hw_env \<Rightarrow> string \<Rightarrow> rfidr_error_t prog" where
  "end_inventory hw error_info =
     checked rfidr_disable_pa
       (\<lambda>rc. fail_with hw error_info ''disabling PA'' rc RFIDR_ERROR_GENERAL)
     (modify rfidr_enable_led1
     (checked (driver hw set_end_radio_fsm_loop)
       (\<lambda>rc. fail_with hw error_info ''setting inventory end'' rc RFIDR_ERROR_GENERAL)
     (checked (driver hw set_go_radio_oneshot)
       (\<lambda>rc. fail_with hw error_info ''set go radio for inv. end'' rc RFIDR_ERROR_GENERAL)
     (then_do (spin_wait hw WaitIrq) (\<lambda>u.
      checked (driver hw set_irq_ack_oneshot)
       (\<lambda>rc. fail_with hw error_info ''acking irq for inv. end'' rc RFIDR_ERROR_GENERAL)
     (Ret RFIDR_SUCCESS))))))"

subsection \<open>\<open>tracking_core\<close>: the hop-or-skip step\<close>

definition NUM_ALLOWED_OUTER_CAL_FAILS :: nat where
  "NUM_ALLOWED_OUTER_CAL_FAILS = 3"

text \<open>The slot \<open>tracking_core\<close> skips to. The source computes
  \<open>recover_frequency_slot \<plusminus> (3-loop_cal_fails_outer)\<close> in \<open>int\<close> and stores it in a byte,
  which is the same as computing in 8 bits.\<close>

definition skip_frequency_slot_of :: "8 word \<Rightarrow> 8 word \<Rightarrow> 8 word" where
  "skip_frequency_slot_of recover_frequency_slot loop_cal_fails_outer =
     (if recover_frequency_slot \<ge> 22
      then recover_frequency_slot - (3 - loop_cal_fails_outer)
      else recover_frequency_slot + (3 - loop_cal_fails_outer))"

text \<open>The first statement of the body of the outer calibration-retry loop of
  \<open>tracking_core\<close>. The locals \<open>recover_frequency_slot\<close> and \<open>skip_frequency_slot\<close> are
  passed in and returned; \<open>Return\<close> is the early \<open>return RFIDR_ERROR_GENERAL\<close>.\<close>

definition tracking_hop_or_skip ::
  "hw_env \<Rightarrow> string \<Rightarrow> bool \<Rightarrow> 8 word \<Rightarrow> (8 word \<times> 8 word) \<Rightarrow> ((8 word \<times> 8 word) ctl) prog" where
  "tracking_hop_or_skip hw error_info frequency_skip_flag loop_cal_fails_outer slots =
     (case slots of (recover_frequency_slot, skip_frequency_slot) \<Rightarrow>
      if frequency_skip_flag = False
      then then_do (hop_sx1257_frequency hw) (\<lambda>(rfidr_error_code, recover_frequency_slot').
             modify (\<lambda>w. w\<lparr>m_hopskip_nonce := m_hopskip_nonce w + 1\<rparr>)
               (if rfidr_error_code \<noteq> RFIDR_SUCCESS
                then then_do (end_inventory hw ''End Inv.'') (\<lambda>u.
                       fail_with hw error_info ''hopping frequency'' rfidr_error_code
                         (Return RFIDR_ERROR_GENERAL (recover_frequency_slot', skip_frequency_slot)))
                else Ret (Next (recover_frequency_slot', skip_frequency_slot))))
      else (let skip_frequency_slot' = skip_frequency_slot_of recover_frequency_slot loop_cal_fails_outer
            in checked (set_sx1257_frequency hw skip_frequency_slot')
                 (\<lambda>rfidr_error_code. then_do (end_inventory hw ''End Inv.'') (\<lambda>u.
                       fail_with hw error_info ''skipping frequency'' rfidr_error_code
                         (Return RFIDR_ERROR_GENERAL (recover_frequency_slot, skip_frequency_slot'))))
                 (Ret (Next (recover_frequency_slot, skip_frequency_slot')))))"

subsection \<open>rfidr\_rxradio.c: reading results out of the FPGA RX RAM\<close>

fun spi_read_bytes :: "hw_env \<Rightarrow> nat \<Rightarrow> (8 word list) prog" where
  "spi_read_bytes hw 0 = Ret []"
| "spi_read_bytes hw (Suc n) =
     then_do (spi_read hw) (\<lambda>b. then_do (spi_read_bytes hw n) (\<lambda>bs. Ret (b # bs)))"

text \<open>\<open>rfidr_read_epc\<close> fills the 12-byte buffer from the RX RAM for a regular read and with
  zeros otherwise; it always returns \<open>RFIDR_SUCCESS\<close>.\<close>

definition rfidr_read_epc :: "hw_env \<Rightarrow> rfidr_read_rxram_type_t \<Rightarrow> (rfidr_error_t \<times> 8 word list) prog" where
  "rfidr_read_epc hw read_type =
     (if read_type = READ_RXRAM_REGULAR
      then then_do (spi_read_bytes hw MAX_EPC_LENGTH_IN_BYTES) (\<lambda>epc. Ret (RFIDR_SUCCESS, epc))
      else Ret (RFIDR_SUCCESS, replicate MAX_EPC_LENGTH_IN_BYTES 0))"

text \<open>Four bytes, least significant first, assembled into an \<open>int32_t\<close>.\<close>

definition magnitude_of_bytes :: "8 word list \<Rightarrow> 32 word" where
  "magnitude_of_bytes recovery_byte =
     push_bit 0 (ucast (recovery_byte ! 0)) + push_bit 8 (ucast (recovery_byte ! 1))
       + push_bit 16 (ucast (recovery_byte ! 2)) + push_bit 24 (ucast (recovery_byte ! 3))"

definition rfidr_read_main_magnitude :: "hw_env \<Rightarrow> rfidr_read_rxram_type_t \<Rightarrow> (rfidr_error_t \<times> 32 word) prog" where
  "rfidr_read_main_magnitude hw read_type =
     then_do (spi_read_bytes hw 4) (\<lambda>recovery_byte. Ret (RFIDR_SUCCESS, magnitude_of_bytes recovery_byte))"

definition rfidr_read_alt_magnitude :: "hw_env \<Rightarrow> rfidr_read_rxram_type_t \<Rightarrow> (rfidr_error_t \<times> 32 word) prog" where
  "rfidr_read_alt_magnitude hw read_type =
     then_do (spi_read_bytes hw 4) (\<lambda>recovery_byte. Ret (RFIDR_SUCCESS, magnitude_of_bytes recovery_byte))"


subsection \<open>\<open>search_core\<close>\<close>

text \<open>The defaults both \<open>search_core\<close> and \<open>inventory_core\<close> write into the result
  structure.\<close>

definition reset_return_struct :: "rfidr_return_t \<Rightarrow> rfidr_return_t" where
  "reset_return_struct return_struct =
     return_struct\<lparr>i_pass := False, q_pass := False,
       i_epc := replicate MAX_EPC_LENGTH_IN_BYTES 0, q_epc := replicate MAX_EPC_LENGTH_IN_BYTES 0,
       i_lna_gain := 0xD4, q_lna_gain := 0xD4,
       i_main_mag := 0, i_alt_mag := 0, q_main_mag := 0, q_alt_mag := 0\<rparr>"







subsection \<open>\<open>program_core\<close>\<close>

definition MAX_PROG_RETRIES :: nat where
  "MAX_PROG_RETRIES = 5"

text \<open>Which demodulation path \<open>program_core\<close> programs on (\<open>program_q\<close>: 0 is I, 1 is Q),
  from the result of the search that preceded it; \<open>None\<close> is the branch that bails out.\<close>

definition program_q_of :: "rfidr_return_t \<Rightarrow> 8 word option" where
  "program_q_of return_struct =
     (if i_pass return_struct = True
      then Some (if sint (i_main_mag return_struct) > sint (i_alt_mag return_struct) then 0 else 1)
      else if q_pass return_struct = True
      then Some (if sint (q_main_mag return_struct) > sint (q_alt_mag return_struct) then 1 else 0)
      else None)"

text \<open>One iteration of \<open>for(loop_prog_retry = 0; loop_prog_retry <= MAX_PROG_RETRIES+1; ...)\<close>.
  Every condition of the \<open>if\<close>/\<open>else if\<close> chain calls \<open>read_radio_exit_code()\<close> again.\<close>

definition program_retry_body ::
  "hw_env \<Rightarrow> string \<Rightarrow> rfidr_target_epc_t \<Rightarrow> rfidr_program_content_t \<Rightarrow> nat \<Rightarrow> unit \<Rightarrow> (unit ctl) prog" where
  "program_retry_body hw error_info target content loop_prog_retry s =
     checked (driver hw set_go_radio_oneshot)
       (\<lambda>rc. fail_with hw error_info ''set go radio'' rc (Return RFIDR_ERROR_GENERAL ()))
    (then_do (spin_wait hw WaitIrq) (\<lambda>u.
     checked (driver hw set_irq_ack_oneshot)
       (\<lambda>rc. fail_with hw error_info ''acking irq'' rc (Return RFIDR_ERROR_GENERAL ()))
    (then_do (read_radio_exit_code hw) (\<lambda>exit_code1.
     if exit_code1 \<noteq> 0 \<and> loop_prog_retry < MAX_PROG_RETRIES
     then then_do (read_radio_write_cntr hw) (\<lambda>write_cntr.
            modify (send_short_message hw ''Prg.FailAt%01d-Retry'' [uint write_cntr]) (Ret (Next ())))
     else then_do (read_radio_exit_code hw) (\<lambda>exit_code2.
     if exit_code2 \<noteq> 0 \<and> loop_prog_retry = MAX_PROG_RETRIES
     then then_do (read_radio_write_cntr hw) (\<lambda>write_cntr.
            modify (send_short_message hw ''Prg.FailAt%03d-End'' [uint write_cntr])
              (result_ignored (driver hw set_end_radio_fsm_loop) (Ret (Next ()))))
     else then_do (read_radio_exit_code hw) (\<lambda>exit_code3.
     if exit_code3 \<noteq> 0 \<and> loop_prog_retry \<ge> MAX_PROG_RETRIES
     then fail_with hw error_info ''prog. undef'd condt'n'' RFIDR_SUCCESS (Return RFIDR_ERROR_GENERAL ())
     else then_do (read_radio_exit_code hw) (\<lambda>exit_code4.
     if exit_code4 = 0 \<and> loop_prog_retry \<ge> MAX_PROG_RETRIES
     then then_do (read_radio_write_cntr hw) (\<lambda>write_cntr.
            modify (send_short_message hw ''Prg.FailAt%03d-Exit'' [uint write_cntr]) (Ret (Break ())))
     else modify (send_short_message hw ''Prog.Pass!!!'' [])
            (if content = PROGRAM_NEW_EPC
             then checked (driver hw (rfidr_pull_and_check_read_data target))
                    (\<lambda>rc. fail_with hw error_info ''actual readback epc check failed'' rc
                            (Return RFIDR_ERROR_GENERAL ()))
                    (Ret (Break ()))
             else Ret (Break ())))))))))"

text \<open>The retry loop of \<open>program_core\<close> and the statements after it.\<close>

definition program_attempts ::
  "hw_env \<Rightarrow> string \<Rightarrow> rfidr_target_epc_t \<Rightarrow> rfidr_program_content_t \<Rightarrow> rfidr_error_t prog" where
  "program_attempts hw error_info target content =
     then_do (for_loop [0 ..< MAX_PROG_RETRIES + 2]
                (program_retry_body hw error_info target content) ())
       (\<lambda>c. case c of
          Return e s \<Rightarrow> Ret e
        | other \<Rightarrow> checked rfidr_disable_pa
                     (\<lambda>rc. fail_with hw error_info ''disabling pa'' rc RFIDR_ERROR_GENERAL)
                     (Ret RFIDR_SUCCESS))"

definition program_core ::
  "hw_env \<Rightarrow> string \<Rightarrow> rfidr_query_session_t \<Rightarrow> rfidr_target_epc_t \<Rightarrow> rfidr_program_content_t
     \<Rightarrow> rfidr_return_t \<Rightarrow> rfidr_error_t prog" where
  "program_core hw error_info session target content return_struct =
     result_ignored (driver hw (set_select_target TARGET_SL))
    (result_ignored (driver hw (set_select_action ACTION_A0))
    (result_ignored (driver hw (set_query_sel SEL_PSL))
    (result_ignored (driver hw (set_query_session session))
    (result_ignored (driver hw (set_query_target TARGET_A))
    (result_ignored (driver hw (set_query_q 0))
    (case program_q_of return_struct of
       None \<Rightarrow> fail_with hw error_info ''determining which of I and Q channel to receive on''
                 RFIDR_ERROR_GENERAL RFIDR_ERROR_GENERAL
     | Some program_q \<Rightarrow>
     checked (driver hw (if program_q = 0 then set_use_i else set_use_q))
       (\<lambda>rc. fail_with hw error_info ''set which of I or Q to use during programming'' rc RFIDR_ERROR_GENERAL)
    (checked (driver hw (load_select_packet_only
                (case target of TARGET_APP_SPECD_EPC \<Rightarrow> APP_SPECD_EPC
                              | TARGET_LAST_INV_EPC \<Rightarrow> LAST_INV_EPC
                              | _ \<Rightarrow> APP_SPECD_EPC) 12 SEL_PACKET_NO_1))
       (\<lambda>rc. fail_with hw error_info ''loading select packet 1'' rc RFIDR_ERROR_GENERAL)
    (result_ignored (driver hw (set_select_action ACTION_A1))
    (checked (driver hw (load_select_packet_only ZERO_EPC 12 SEL_PACKET_NO_2))
       (\<lambda>rc. fail_with hw error_info ''loading select packet 2'' rc RFIDR_ERROR_GENERAL)
    (checked (driver hw (load_query_packet_only FLAGSWAP_NO))
       (\<lambda>rc. fail_with hw error_info ''loading query'' rc RFIDR_ERROR_GENERAL)
    (checked (driver hw set_radio_mode_program)
       (\<lambda>rc. fail_with hw error_info ''set radio mode to program'' rc RFIDR_ERROR_GENERAL)
    (checked (driver hw set_use_select_pkt)
       (\<lambda>rc. fail_with hw error_info ''setting select packet'' rc RFIDR_ERROR_GENERAL)
    (checked (driver hw (case content of
                           PROGRAM_NEW_EPC \<Rightarrow> load_write_packet_only_program_epc
                         | PROGRAM_KILL_PWD \<Rightarrow> load_write_packet_only_kill_password
                         | KILL_COMMAND \<Rightarrow> load_write_packet_only_kill_command))
       (\<lambda>rc. fail_with hw error_info ''loading write packet: '' rc RFIDR_ERROR_GENERAL)
    (checked (if content = KILL_COMMAND then driver hw set_use_kill_pkt else Ret RFIDR_SUCCESS)
       (\<lambda>rc. fail_with hw error_info ''setting kill packet bit: '' rc RFIDR_ERROR_GENERAL)
    (checked rfidr_enable_pa
       (\<lambda>rc. fail_with hw error_info ''enabling pa: '' rc RFIDR_ERROR_GENERAL)
    (result_ignored (set_sx1257_lna_gain hw 0xD4)
    (program_attempts hw error_info target content)))))))))))))))))"

subsection \<open>\<open>inventory_core\<close>\<close>

definition QUERY_ROUND_LIMIT :: nat where
  "QUERY_ROUND_LIMIT = 36"

definition MAX_QUERY_Q :: "8 word" where
  "MAX_QUERY_Q = 6"

text \<open>\<open>q_value=(uint8_t)(*(query_q_vector+loop_query_q)-'0')\<close>, then
  \<open>q_value=(q_value > MAX_QUERY_Q) ? MAX_QUERY_Q : q_value\<close>.\<close>

definition q_value_of :: "8 word \<Rightarrow> 8 word" where
  "q_value_of c = (let q_value = c - 0x30 in if q_value > MAX_QUERY_Q then MAX_QUERY_Q else q_value)"

definition select_target_of_session :: "rfidr_query_session_t \<Rightarrow> rfidr_select_target_t" where
  "select_target_of_session session =
     (case session of SESSION_S0 \<Rightarrow> TARGET_S0 | SESSION_S1 \<Rightarrow> TARGET_S1
      | SESSION_S2 \<Rightarrow> TARGET_S2 | SESSION_S3 \<Rightarrow> TARGET_S3)"

text \<open>\<open>read_length_app_specd_target_epc\<close> (rfidr\_txradio.c) returns the length through a
  pointer; the environment supplies it.\<close>

definition read_length_of_app_specd_target_epc :: "hw_env \<Rightarrow> (rfidr_error_t \<times> 8 word) prog" where
  "read_length_of_app_specd_target_epc hw w =
     Ret (ans_err hw (tick w), ans_byte hw (tick w))
       (consume (emit (Call read_length_app_specd_target_epc) w))"

text \<open>The statement every failure inside the query loop executes:
  \<open>{end_inventory(p_rfidrs,"End Inv."); handle_error(p_rfidrs,error_info,...,rfidr_error_code);
  return RFIDR_ERROR_GENERAL;}\<close>.\<close>

definition abort_inventory :: "hw_env \<Rightarrow> string \<Rightarrow> string \<Rightarrow> rfidr_error_t \<Rightarrow> 'a \<Rightarrow> 'a prog" where
  "abort_inventory hw error_info inner code ret =
     result_ignored (end_inventory hw ''End Inv.'') (fail_with hw error_info inner code ret)"

text \<open>The data of a tag that answered goes to the application, which has to acknowledge it.\<close>

definition inventory_push_tag ::
  "hw_env \<Rightarrow> string \<Rightarrow> 8 word \<Rightarrow> rfidr_return_t \<Rightarrow> (rfidr_return_t ctl) prog" where
  "inventory_push_tag hw error_info recover_frequency_slot return_struct =
     checked (\<lambda>w. driver hw (rfidr_push_data_over_ble return_struct return_struct
                       recover_frequency_slot 255 (m_hopskip_nonce w) BLE_PUSH_MINIMAL) w)
       (\<lambda>rc. abort_inventory hw error_info ''pushing pckt data over ble'' rc
                (Return RFIDR_ERROR_GENERAL return_struct))
     (then_do (spin_wait hw WaitHvcPcktData1) (\<lambda>u. Ret (Next return_struct)))"

text \<open>The branch \<open>if(read_radio_exit_code()==0)\<close> of a slot. The error code passed to
  \<open>handle_error\<close> when the tag bound is reached is the one of the acknowledgment that
  preceded it, \<open>RFIDR_SUCCESS\<close>.\<close>

definition inventory_tag_found ::
  "hw_env \<Rightarrow> string \<Rightarrow> 8 word \<Rightarrow> nat \<Rightarrow> 8 word \<Rightarrow> rfidr_return_t \<Rightarrow> (rfidr_return_t ctl) prog" where
  "inventory_tag_found hw error_info max_tags loop_iq recover_frequency_slot return_struct =
     modify (\<lambda>w. w\<lparr>m_num_inv_tags_found := m_num_inv_tags_found w + 1\<rparr>)
       (\<lambda>w.
         if unat (m_num_inv_tags_found w) \<ge> unat max_tags
         then abort_inventory hw error_info ''inventoried more than max # tags'' RFIDR_SUCCESS
                (Return RFIDR_ERROR_GENERAL return_struct) w
         else
          (let r0 = reset_return_struct return_struct in
           if loop_iq = 0
           then
             then_do (rfidr_read_epc hw READ_RXRAM_REGULAR) (\<lambda>(rc, epc).
               let r1 = r0\<lparr>i_pass := True, i_epc := epc\<rparr> in
               if rc \<noteq> RFIDR_SUCCESS
               then abort_inventory hw error_info ''checking I EPC'' rc (Return RFIDR_ERROR_GENERAL r1)
               else
             result_ignored (driver hw (set_last_inv_epc epc))
            (then_do (rfidr_read_main_magnitude hw READ_RXRAM_REGULAR) (\<lambda>(rc, mag).
               let r2 = r1\<lparr>i_main_mag := mag\<rparr> in
               if rc \<noteq> RFIDR_SUCCESS
               then abort_inventory hw error_info ''checking I - Main Mag'' rc (Return RFIDR_ERROR_GENERAL r2)
               else
             then_do (rfidr_read_alt_magnitude hw READ_RXRAM_REGULAR) (\<lambda>(rc, alt).
               let r3 = r2\<lparr>i_alt_mag := alt\<rparr> in
               if rc \<noteq> RFIDR_SUCCESS
               then abort_inventory hw error_info ''checking I - Alt Mag'' rc (Return RFIDR_ERROR_GENERAL r3)
               else inventory_push_tag hw error_info recover_frequency_slot r3))))
           else
             then_do (rfidr_read_epc hw READ_RXRAM_REGULAR) (\<lambda>(rc, epc).
               let r1 = r0\<lparr>q_pass := True, q_epc := epc\<rparr> in
               if rc \<noteq> RFIDR_SUCCESS
               then abort_inventory hw error_info ''checking Q EPC'' rc (Return RFIDR_ERROR_GENERAL r1)
               else
             result_ignored (driver hw (set_last_inv_epc epc))
            (then_do (rfidr_read_main_magnitude hw READ_RXRAM_REGULAR) (\<lambda>(rc, mag).
               let r2 = r1\<lparr>q_main_mag := mag\<rparr> in
               if rc \<noteq> RFIDR_SUCCESS
               then abort_inventory hw error_info ''checking Q - Main Mag'' rc (Return RFIDR_ERROR_GENERAL r2)
               else
             then_do (rfidr_read_alt_magnitude hw READ_RXRAM_REGULAR) (\<lambda>(rc, alt).
               let r3 = r2\<lparr>q_alt_mag := alt\<rparr> in
               if rc \<noteq> RFIDR_SUCCESS
               then abort_inventory hw error_info ''checking Q - Alt Mag'' rc (Return RFIDR_ERROR_GENERAL r3)
               else inventory_push_tag hw error_info recover_frequency_slot r3))))) w)"

text \<open>One iteration of \<open>for(loop_q_iter=0;loop_q_iter <= (1 << q_value);loop_q_iter++)\<close>. The
  loop carries the result structure and \<open>query_adj_burn_flag\<close>.\<close>

definition inventory_slot_body ::
  "hw_env \<Rightarrow> string \<Rightarrow> 8 word \<Rightarrow> nat \<Rightarrow> 8 word \<Rightarrow> nat \<Rightarrow> rfidr_return_t \<times> bool
     \<Rightarrow> ((rfidr_return_t \<times> bool) ctl) prog" where
  "inventory_slot_body hw error_info max_tags loop_iq recover_frequency_slot loop_q_iter s =
     checked (driver hw set_go_radio_oneshot)
       (\<lambda>rc. abort_inventory hw error_info ''set go radio'' rc (Return RFIDR_ERROR_GENERAL s))
    (then_do (spin_wait hw WaitIrq) (\<lambda>u.
     checked (driver hw set_irq_ack_oneshot)
       (\<lambda>rc. abort_inventory hw error_info ''acking irq'' rc (Return RFIDR_ERROR_GENERAL s))
    (then_do (read_radio_exit_code hw) (\<lambda>exit_code.
     then_do (if exit_code = 0
              then inventory_tag_found hw error_info max_tags loop_iq recover_frequency_slot (fst s)
              else Ret (Next (fst s)))
       (\<lambda>c. case c of
          Next r \<Rightarrow>
            if snd s = True \<and> loop_q_iter > 0
            then result_ignored (driver hw load_query_rep_packet) (Ret (Next (r, False)))
            else Ret (Next (r, snd s))
        | Break r \<Rightarrow> Ret (Break (r, snd s))
        | Return e r \<Rightarrow> Ret (Return e (r, snd s)))))))"

text \<open>One iteration of \<open>for(loop_iq=0;loop_iq<=1;loop_iq++)\<close>.\<close>

definition inventory_iq_body ::
  "hw_env \<Rightarrow> string \<Rightarrow> 8 word \<Rightarrow> 8 word \<Rightarrow> 8 word \<Rightarrow> nat \<Rightarrow> rfidr_return_t \<times> bool
     \<Rightarrow> ((rfidr_return_t \<times> bool) ctl) prog" where
  "inventory_iq_body hw error_info max_tags q_value recover_frequency_slot loop_iq s =
     checked (driver hw (if loop_iq mod 2 = 0 then set_use_i else set_use_q))
       (\<lambda>rc. abort_inventory hw error_info ''set_use_i/q'' rc (Return RFIDR_ERROR_GENERAL s))
    (checked (driver hw set_alt_radio_fsm_loop)
       (\<lambda>rc. abort_inventory hw error_info ''setting new query flag'' rc (Return RFIDR_ERROR_GENERAL s))
    (for_loop [0 ..< 2 ^ unat q_value + 1]
       (inventory_slot_body hw error_info max_tags loop_iq recover_frequency_slot) s))"

text \<open>One query round: the body of the loop over \<open>query_q_vector\<close>, for the character
  \<open>c\<close> read from it.\<close>

definition inventory_round ::
  "hw_env \<Rightarrow> string \<Rightarrow> 8 word \<Rightarrow> 8 word \<Rightarrow> rfidr_return_t \<times> bool
     \<Rightarrow> ((rfidr_return_t \<times> bool) ctl) prog" where
  "inventory_round hw error_info max_tags c s =
     modify rfidr_toggle_led1
    (result_ignored (driver hw (set_query_q (q_value_of c)))
    (then_do (hop_sx1257_frequency hw) (\<lambda>(rc, recover_frequency_slot).
     modify (\<lambda>w. w\<lparr>m_hopskip_nonce := m_hopskip_nonce w + 1\<rparr>)
      (if rc \<noteq> RFIDR_SUCCESS
       then abort_inventory hw error_info ''hopping frequency'' rc (Return RFIDR_ERROR_GENERAL s)
       else
     checked (driver hw (load_query_packet_only FLAGSWAP_NO))
       (\<lambda>rc. abort_inventory hw error_info ''loading query'' rc (Return RFIDR_ERROR_GENERAL s))
    (checked rfidr_enable_pa
       (\<lambda>rc. abort_inventory hw error_info ''enabling pa'' rc (Return RFIDR_ERROR_GENERAL s))
    (then_do (for_loop [0, 1]
                (inventory_iq_body hw error_info max_tags (q_value_of c) recover_frequency_slot) s)
       (\<lambda>c. case c of
          Next s' \<Rightarrow>
            checked rfidr_disable_pa
              (\<lambda>rc. abort_inventory hw error_info ''disabling pa: '' rc (Return RFIDR_ERROR_GENERAL s'))
              (Ret (Next s'))
        | other \<Rightarrow> Ret other)))))))"

text \<open>The loop
  \<open>for(loop_query_q=0;(*(query_q_vector+loop_query_q) != 0) || loop_query_q < QUERY_ROUND_LIMIT;loop_query_q++)\<close>.
  \<open>query_q_vector\<close> is the memory from the pointer on, byte by byte; the counter is a
  \<open>uint8_t\<close>. The loop need not end, so it runs on fuel.\<close>

fun inventory_rounds ::
  "nat \<Rightarrow> hw_env \<Rightarrow> string \<Rightarrow> (nat \<Rightarrow> 8 word) \<Rightarrow> 8 word \<Rightarrow> 8 word \<Rightarrow> rfidr_return_t \<times> bool
     \<Rightarrow> ((rfidr_return_t \<times> bool) ctl) prog" where
  "inventory_rounds 0 hw error_info query_q_vector max_tags loop_query_q s = (\<lambda>w. OutOfFuel)"
| "inventory_rounds (Suc fuel) hw error_info query_q_vector max_tags loop_query_q s =
     (if query_q_vector (unat loop_query_q) \<noteq> 0 \<or> unat loop_query_q < QUERY_ROUND_LIMIT
      then then_do (inventory_round hw error_info max_tags (query_q_vector (unat loop_query_q)) s)
             (\<lambda>c. case c of
                Next s' \<Rightarrow> inventory_rounds fuel hw error_info query_q_vector max_tags (loop_query_q + 1) s'
              | other \<Rightarrow> Ret other)
      else Ret (Next s))"

text \<open>\<open>inventory_core\<close>. The argument \<open>epc2\<close> of the source is not used by it.\<close>

definition inventory_core ::
  "nat \<Rightarrow> hw_env \<Rightarrow> string \<Rightarrow> rfidr_query_session_t \<Rightarrow> (nat \<Rightarrow> 8 word) \<Rightarrow> 8 word \<Rightarrow> rfidr_return_t
     \<Rightarrow> (rfidr_error_t \<times> rfidr_return_t) prog" where
  "inventory_core fuel hw error_info session query_q_vector max_tags return_struct =
     modify (\<lambda>w. w\<lparr>m_num_inv_tags_found := 0\<rparr>)
    (result_ignored (driver hw (set_select_target (select_target_of_session session)))
    (result_ignored (driver hw (set_select_action ACTION_A0))
    (result_ignored (driver hw (set_query_sel SEL_PSL))
    (result_ignored (driver hw (set_query_session session))
    (result_ignored (driver hw (set_query_target TARGET_A))
    (then_do (read_length_of_app_specd_target_epc hw) (\<lambda>(rc0, epc1_length_in_bytes).
     checked (driver hw (load_select_packet_only APP_SPECD_EPC epc1_length_in_bytes SEL_PACKET_NO_1))
       (\<lambda>rc. fail_with hw error_info ''loading arbitrary select packet'' rc
                (RFIDR_ERROR_GENERAL, return_struct))
    (result_ignored (driver hw (set_select_target TARGET_SL))
    (checked (driver hw (load_select_packet_only APP_SPECD_EPC epc1_length_in_bytes SEL_PACKET_NO_2))
       (\<lambda>rc. fail_with hw error_info ''loading arbitrary select packet no 2'' rc
                (RFIDR_ERROR_GENERAL, return_struct))
    (checked (driver hw set_radio_mode_inventory)
       (\<lambda>rc. fail_with hw error_info ''set radio mode to inventory'' rc
                (RFIDR_ERROR_GENERAL, return_struct))
    (checked (driver hw (load_query_adj_packet True))
       (\<lambda>rc. fail_with hw error_info ''loading query rep'' rc (RFIDR_ERROR_GENERAL, return_struct))
    (checked (driver hw set_use_select_pkt)
       (\<lambda>rc. fail_with hw error_info ''setting select packet'' rc (RFIDR_ERROR_GENERAL, return_struct))
    (result_ignored (set_sx1257_lna_gain hw 0xD4)
    (then_do (inventory_rounds fuel hw error_info query_q_vector max_tags 0 (return_struct, True))
       (\<lambda>c. case c of
          Return e s \<Rightarrow> Ret (e, fst s)
        | Break s \<Rightarrow> Ret (RFIDR_SUCCESS, fst s)
        | Next s \<Rightarrow>
            checked (end_inventory hw ''End Inv.'')
              (\<lambda>rc. fail_with hw error_info ''ending inventory'' rc (RFIDR_ERROR_GENERAL, fst s))
           (modify rfidr_enable_led1
           (modify (\<lambda>w. send_short_message hw ''InventryFnd %03dTags''
                           [uint (m_num_inv_tags_found w AND 255)] w)
           (Ret (RFIDR_SUCCESS, fst s)))))))))))))))))))"

section \<open>Vocabulary of the theorems\<close>

text \<open>The interactions a call added to the log, and the world in which a call ended
  (returned, got stuck or reset).\<close>

definition new_events :: "world \<Rightarrow> world \<Rightarrow> event list" where
  "new_events w w' = drop (length (trace w)) (trace w')"

fun outcome_world :: "'a res \<Rightarrow> world option" where
  "outcome_world (Ret a w) = Some w"
| "outcome_world (Stuck w) = Some w"
| "outcome_world (Reset w) = Some w"
| "outcome_world OutOfFuel = None"

text \<open>The state after \<open>rfidr_state_init\<close> (and the initial slot of rfidr\_sx1257.c), and
  environments that give the same answer to every interaction.\<close>

definition boot_world :: world where
  "boot_world = \<lparr>m_rfidr_state = IDLE_UNCONFIGURED, m_rfidr_state_next = IDLE_UNCONFIGURED,
     m_dtc_state_flag = False, m_track_tag_state_flag = False, m_num_inv_tags_found = 0,
     m_hopskip_nonce = 0, m_sx1257_frequency_slot = 12, pa_enabled = False, led1 = False,
     tick = 0, trace = []\<rparr>"

definition hw_const :: "rfidr_error_t \<Rightarrow> 32 word \<Rightarrow> 8 word \<Rightarrow> bool \<Rightarrow> hw_env" where
  "hw_const e n b f = \<lparr>ans_err = (\<lambda>t. e), ans_nrf = (\<lambda>t. n), ans_byte = (\<lambda>t. b), ans_flag = (\<lambda>t. f)\<rparr>"

text \<open>An environment whose driver calls succeed for the first \<open>k\<close> interactions and report a
  fault from then on.\<close>

definition hw_faulty_from :: "nat \<Rightarrow> hw_env" where
  "hw_faulty_from k = \<lparr>ans_err = (\<lambda>t. if t < k then RFIDR_SUCCESS else RFIDR_ERROR_GENERAL),
     ans_nrf = (\<lambda>t. 0), ans_byte = (\<lambda>t. 0), ans_flag = (\<lambda>t. True)\<rparr>"

text \<open>The iterates of the hop slot update from a start slot.\<close>

definition hop_orbit :: "8 word \<Rightarrow> 8 word list" where
  "hop_orbit s = map (\<lambda>k. (hop_slot ^^ k) s) [0 ..< 25]"

text \<open>A specification of a call: from a world that satisfies \<open>P\<close>, a returned value and
  world satisfy \<open>Q\<close>, and the world in which the call got stuck or reset the MCU satisfies
  \<open>E\<close>. Nothing is said of a run that the fuel cut short.\<close>

definition valid :: "(world \<Rightarrow> bool) \<Rightarrow> 'a prog \<Rightarrow> ('a \<Rightarrow> world \<Rightarrow> bool) \<Rightarrow> (world \<Rightarrow> bool) \<Rightarrow> bool" where
  "valid P m Q E =
     (\<forall>w. P w \<longrightarrow> (case m w of Ret a w' \<Rightarrow> Q a w' | Stuck w' \<Rightarrow> E w' | Reset w' \<Rightarrow> E w'
                     | OutOfFuel \<Rightarrow> True))"

text \<open>The interactions logged from position \<open>n\<close> of the log on.\<close>

definition events_since :: "nat \<Rightarrow> world \<Rightarrow> event list" where
  "events_since n w = drop n (trace w)"


text \<open>Result structures for concrete runs: nothing found, and a tag found on the I path
  with the given main and alternate magnitudes.\<close>

definition blank_return_struct :: rfidr_return_t where
  "blank_return_struct = \<lparr>i_pass = False, q_pass = False,
     i_epc = replicate MAX_EPC_LENGTH_IN_BYTES 0, q_epc = replicate MAX_EPC_LENGTH_IN_BYTES 0,
     i_lna_gain = 0xD4, q_lna_gain = 0xD4,
     i_main_mag = 0, i_alt_mag = 0, q_main_mag = 0, q_alt_mag = 0\<rparr>"

definition found_on_i :: "32 word \<Rightarrow> 32 word \<Rightarrow> rfidr_return_t" where
  "found_on_i main alt = blank_return_struct\<lparr>i_pass := True, i_main_mag := main, i_alt_mag := alt\<rparr>"

text \<open>Frequency hops in a list of events, the value a run returned and the events a run left
  behind.\<close>

fun is_hop :: "event \<Rightarrow> bool" where
  "is_hop (HopSx1257Frequency s) = True"
| "is_hop e = False"

definition hops :: "event list \<Rightarrow> nat" where
  "hops es = length (filter is_hop es)"







text \<open>A run from a state in \<open>P\<close> returns, with a value and a state in \<open>Q\<close>: it neither
  hangs in a wait, nor resets the MCU, nor runs out of fuel.\<close>

definition returns :: "(world \<Rightarrow> bool) \<Rightarrow> 'a prog \<Rightarrow> ('a \<Rightarrow> world \<Rightarrow> bool) \<Rightarrow> bool" where
  "returns P m Q = (\<forall>w. P w \<longrightarrow> (\<exists>a w'. m w = Ret a w' \<and> Q a w'))"

text \<open>The frequency has been hopped \<open>h\<close> times since the trace had \<open>n\<close> events.\<close>

definition hopped_times :: "nat \<Rightarrow> nat \<Rightarrow> world \<Rightarrow> bool" where
  "hopped_times n h w = (n \<le> length (trace w) \<and> hops (events_since n w) = h)"

definition no_hop :: "event \<Rightarrow> bool" where
  "no_hop e = (\<not> is_hop e)"

text \<open>The memory at a pointer to a C string that is followed by zero bytes.\<close>

definition c_string :: "string \<Rightarrow> nat \<Rightarrow> 8 word" where
  "c_string s i = (if i < length s then of_char (s ! i) else 0)"


text \<open>Events that are neither a driver command nor a frequency change: GPIO, messages to the
  application, bus reads and waits.\<close>

fun incidental :: "event \<Rightarrow> bool" where
  "incidental (Call c) = False"
| "incidental (HopSx1257Frequency s) = False"
| "incidental (SetSx1257Frequency s) = False"
| "incidental e = True"

text \<open>A property of the world is stable when no incidental event, no event in \<open>ok\<close>, and no
  update of the fields that the GPIO wrappers and \<open>handle_error\<close> write can falsify it.\<close>

definition stable :: "(event \<Rightarrow> bool) \<Rightarrow> (world \<Rightarrow> bool) \<Rightarrow> bool" where
  "stable ok I =
     (\<forall>w. I w \<longrightarrow>
        I (consume w)
      \<and> (\<forall>e. incidental e \<or> ok e \<longrightarrow> I (emit e w))
      \<and> (\<forall>b. I (w\<lparr>pa_enabled := b\<rparr>))
      \<and> (\<forall>b. I (w\<lparr>led1 := b\<rparr>))
      \<and> (\<forall>b. I (w\<lparr>m_track_tag_state_flag := b\<rparr>))
      \<and> (\<forall>b. I (w\<lparr>m_dtc_state_flag := b\<rparr>))
      \<and> (\<forall>s. I (w\<lparr>m_rfidr_state := s\<rparr>))
      \<and> (\<forall>s. I (w\<lparr>m_rfidr_state_next := s\<rparr>)))"

section \<open>Basic facts about the sequencing helpers\<close>

lemmas exec_defs = then_do_def modify_def checked_def result_ignored_def fail_with_def driver_def spin_wait_def
  spi_read_def emit_def consume_def rfidr_enable_pa_def rfidr_disable_pa_def rfidr_enable_led1_def
  rfidr_disable_led1_def rfidr_toggle_led1_def send_short_message_def send_log_message_def
  rfidr_state_bookend_function_def handle_error_def read_radio_exit_code_def
  read_radio_write_cntr_def set_sx1257_lna_gain_def NRF_SUCCESS_def NRF_ERROR_INVALID_STATE_def

lemma then_do_Ret:
  assumes "then_do m k w = Ret b w'"
  obtains a w1 where "m w = Ret a w1" and "k a w1 = Ret b w'"
  using assms by (auto simp: then_do_def split: res.splits)

lemma fail_with_Ret:
  assumes "fail_with hw outer inner code ret w = Ret a w'"
  shows "a = ret"
  using assms by (auto simp: fail_with_def then_do_def split: res.splits)

section \<open>The request filter\<close>

text \<open>Claim C1. A request is accepted only from the legal source states of the requested
  state and is otherwise a no-op that leaves the pending state equal to the current one; in
  particular \<open>RESET_SX1257_AND_FPGA\<close> is refused outside the two idle states, DTC testing and
  the two tracking states. The code does not do this: in the reset case the guard ends in
  the bare enumerator \<open>TRACK_LAST_INV_TAG\<close>, which is always true, so the \<open>else\<close> branch
  (whose comment says that a reset must not happen in the middle of an operational state)
  is dead. The theorem runs the code in the middle of an inventory: the reset request
  becomes the pending state.\<close>

theorem write_rfidr_state_next_reset_unguarded:
  "m_rfidr_state_next
     (write_rfidr_state_next RESET_SX1257_AND_FPGA
        (boot_world\<lparr>m_rfidr_state := INVENTORYING, m_rfidr_state_next := INVENTORYING\<rparr>))
     = RESET_SX1257_AND_FPGA"
  by (simp add: write_rfidr_state_next_def boot_world_def)

section \<open>The shared error handler\<close>

text \<open>Claim C5. However \<open>handle_error\<close> ends (it returns, it spins forever on the
  unconfirmed state indication, or \<open>APP_ERROR_CHECK\<close> resets the MCU), at that moment the
  power amplifier is disabled, the tracking flag and the DTC flag are both false, the error
  message and the state notification have been handed to the BLE layer, and the current and
  pending state are both \<open>IDLE_UNCONFIGURED\<close> if the state at the time of the error was
  \<open>IDLE_UNCONFIGURED\<close> or \<open>INITIALIZING\<close>, and both \<open>IDLE_CONFIGURED\<close> otherwise. It
  returns when the state notification is accepted and confirmed.\<close>

theorem handle_error_forces_idle:
  "\<exists>w'. outcome_world (handle_error hw outer inner code w) = Some w'
     \<and> pa_enabled w' = False
     \<and> m_track_tag_state_flag w' = False
     \<and> m_dtc_state_flag w' = False
     \<and> PaDisable \<in> set (new_events w w')
     \<and> ErrorMessage (take 116 outer) (take 116 inner) code \<in> set (new_events w w')
     \<and> ReadStateSend (m_rfidr_state w') \<in> set (new_events w w')
     \<and> m_rfidr_state w' =
          (if m_rfidr_state w = IDLE_UNCONFIGURED \<or> m_rfidr_state w = INITIALIZING
           then IDLE_UNCONFIGURED else IDLE_CONFIGURED)
     \<and> m_rfidr_state_next w' = m_rfidr_state w'
     \<and> (ans_nrf hw (tick w + 1) = NRF_SUCCESS \<and> ans_flag hw (tick w + 2)
          \<longrightarrow> handle_error hw outer inner code w = Ret () w')"
  by (simp add: exec_defs new_events_def Let_def)

theorem handle_error_forces_idle_witness:
  "\<exists>w'. handle_error (hw_const RFIDR_SUCCESS 0 0 True) ''inventorying'' ''set go radio''
            RFIDR_ERROR_SPI_WRITE_TX (boot_world\<lparr>m_rfidr_state := INVENTORYING, pa_enabled := True,
               m_track_tag_state_flag := True\<rparr>) = Ret () w'
     \<and> pa_enabled w' = False \<and> m_track_tag_state_flag w' = False \<and> m_dtc_state_flag w' = False
     \<and> m_rfidr_state w' = IDLE_CONFIGURED \<and> m_rfidr_state_next w' = IDLE_CONFIGURED"
  using handle_error_forces_idle [of "hw_const RFIDR_SUCCESS 0 0 True" "''inventorying''"
      "''set go radio''" RFIDR_ERROR_SPI_WRITE_TX
      "boot_world\<lparr>m_rfidr_state := INVENTORYING, pa_enabled := True, m_track_tag_state_flag := True\<rparr>"]
  by (auto simp: hw_const_def boot_world_def NRF_SUCCESS_def)

section \<open>Frequency hopping\<close>

lemma unat_hop_slot: "unat (hop_slot s) = (unat s + 7) mod 25"
proof -
  have "(unat s + 7) mod 25 < 25" by simp
  then have "(unat s + 7) mod 25 < 2 ^ 8" by simp
  then show ?thesis
    unfolding hop_slot_def by (simp add: unat_of_nat)
qed

lemma unat_hop_iter: "unat s < 25 \<Longrightarrow> unat ((hop_slot ^^ k) s) = (unat s + 7 * k) mod 25"
proof (induction k)
  case 0
  then show ?case by simp
next
  case (Suc k)
  have "unat ((hop_slot ^^ Suc k) s) = (unat ((hop_slot ^^ k) s) + 7) mod 25"
    by (simp add: unat_hop_slot)
  also have "\<dots> = ((unat s + 7 * k) mod 25 + 7) mod 25"
    using Suc by simp
  also have "\<dots> = (unat s + 7 * k + 7) mod 25"
    by (rule mod_add_left_eq)
  also have "\<dots> = (unat s + 7 * Suc k) mod 25"
    by (simp add: ac_simps)
  finally show ?case .
qed

lemma dvd_25_7:
  assumes "(25::nat) dvd 7 * d"
  shows "25 dvd d"
proof -
  have a: "25 dvd 18 * (7 * d)" using assms by (rule dvd_mult)
  have b: "(25::nat) dvd 25 * (5 * d)" by (rule dvd_triv_left)
  have "18 * (7 * d) - 25 * (5 * d) = d" by simp
  then show ?thesis using dvd_diff_nat [OF a b] by simp
qed

lemma hop_arith_inj_le:
  assumes "j \<le> k" "k < (25::nat)" "(n + 7 * j) mod 25 = (n + 7 * k) mod 25"
  shows "j = k"
proof -
  have le: "n + 7 * j \<le> n + 7 * k" using assms(1) by simp
  have "(n + 7 * k) mod 25 = (n + 7 * j) mod 25" using assms(3) by simp
  then have "25 dvd (n + 7 * k) - (n + 7 * j)"
    using le by (simp add: mod_eq_dvd_iff_nat)
  moreover have "(n + 7 * k) - (n + 7 * j) = 7 * (k - j)"
    using assms(1) by (simp add: diff_mult_distrib2)
  ultimately have "25 dvd 7 * (k - j)" by simp
  then have "25 dvd (k - j)" by (rule dvd_25_7)
  moreover have "k - j < 25" using assms(2) by simp
  ultimately have "k - j = 0"
    by (meson dvd_imp_le not_le zero_less_iff_neq_zero)
  then show ?thesis using assms(1) by simp
qed

lemma hop_arith_inj:
  assumes "j < (25::nat)" "k < 25" "(n + 7 * j) mod 25 = (n + 7 * k) mod 25"
  shows "j = k"
proof (cases "j \<le> k")
  case True
  then show ?thesis using assms hop_arith_inj_le by blast
next
  case False
  then have "k \<le> j" by simp
  then have "k = j" using assms hop_arith_inj_le [of k j n] by simp
  then show ?thesis by simp
qed

lemma card_slots: "card {t::8 word. t \<le> 24} = 25"
proof -
  have "{t::8 word. t \<le> 24} = of_nat ` {0..<25}"
  proof (intro set_eqI iffI)
    fix t :: "8 word" assume "t \<in> {t. t \<le> 24}"
    then have "unat t < 25" by (simp add: word_le_nat_alt)
    then have "unat t \<in> {0..<25}" by simp
    then have "of_nat (unat t) \<in> (of_nat ` {0..<25} :: 8 word set)" by (rule imageI)
    then show "t \<in> of_nat ` {0..<25}" by simp
  next
    fix t :: "8 word" assume "t \<in> of_nat ` {0..<25}"
    then obtain n where n: "n < 25" "t = of_nat n" by auto
    then have "unat t = n" by (simp add: unat_of_nat)
    then show "t \<in> {t. t \<le> 24}" using n by (simp add: word_le_nat_alt)
  qed
  moreover have "inj_on (of_nat :: nat \<Rightarrow> 8 word) {0..<25}"
  proof (rule inj_onI)
    fix x y :: nat assume "x \<in> {0..<25}" "y \<in> {0..<25}" "(of_nat x :: 8 word) = of_nat y"
    then have "unat (of_nat x :: 8 word) = unat (of_nat y :: 8 word)" "x < 256" "y < 256" by simp_all
    then show "x = y" by (simp add: unat_of_nat)
  qed
  ultimately show ?thesis by (simp add: card_image)
qed

text \<open>Claim C8. From every start slot in 0..24 the hop update \<open>(slot + 7) mod 25\<close> comes
  back to the start after 25 hops and not before, and the 25 slots it passes through are
  pairwise different and are all of 0..24.\<close>

theorem hop_full_period:
  assumes "s \<le> 24"
  shows "(hop_slot ^^ 25) s = s
    \<and> (\<forall>k. 0 < k \<and> k < 25 \<longrightarrow> (hop_slot ^^ k) s \<noteq> s)
    \<and> distinct (hop_orbit s)
    \<and> set (hop_orbit s) = {t. t \<le> 24}"
proof -
  have s: "unat s < 25" using assms by (simp add: word_le_nat_alt)
  have period: "(hop_slot ^^ 25) s = s"
  proof -
    have "unat ((hop_slot ^^ 25) s) = (unat s + 7 * 25) mod 25" using s by (rule unat_hop_iter)
    also have "\<dots> = unat s" using s mod_mult_self2 [of "unat s" 25 7] by simp
    finally show ?thesis by (simp add: word_unat_eq_iff)
  qed
  have inj: "j = k" if "j < 25" "k < 25" "(hop_slot ^^ j) s = (hop_slot ^^ k) s" for j k
  proof -
    have "unat ((hop_slot ^^ j) s) = unat ((hop_slot ^^ k) s)" using that(3) by simp
    then have "(unat s + 7 * j) mod 25 = (unat s + 7 * k) mod 25"
      using s by (simp add: unat_hop_iter)
    then show ?thesis using that(1,2) by (rule hop_arith_inj [rotated 2])
  qed
  have first: "\<forall>k. 0 < k \<and> k < 25 \<longrightarrow> (hop_slot ^^ k) s \<noteq> s"
  proof (intro allI impI notI)
    fix k assume k: "0 < k \<and> k < 25" and eq: "(hop_slot ^^ k) s = s"
    have "(hop_slot ^^ k) s = (hop_slot ^^ 0) s" using eq by simp
    then have "k = 0" using k inj [of k 0] by simp
    then show False using k by simp
  qed
  have dist: "distinct (hop_orbit s)"
    unfolding hop_orbit_def distinct_map
    by (auto intro!: inj_onI dest: inj)
  have sub: "set (hop_orbit s) \<subseteq> {t. t \<le> 24}"
  proof
    fix t assume "t \<in> set (hop_orbit s)"
    then obtain k where "t = (hop_slot ^^ k) s" by (auto simp: hop_orbit_def)
    then have "unat t = (unat s + 7 * k) mod 25" using s by (simp add: unat_hop_iter)
    then have "unat t < 25" by simp
    then show "t \<in> {t. t \<le> 24}" by (simp add: word_le_nat_alt)
  qed
  have "card (set (hop_orbit s)) = length (hop_orbit s)"
    using dist by (rule distinct_card)
  also have "length (hop_orbit s) = 25"
    by (simp add: hop_orbit_def)
  finally have "card (set (hop_orbit s)) = 25" .
  then have "card {t::8 word. t \<le> 24} \<le> card (set (hop_orbit s))"
    by (simp add: card_slots)
  then have "set (hop_orbit s) = {t. t \<le> 24}"
    using sub by (intro card_seteq) simp_all
  then show ?thesis using period first dist by simp
qed

theorem hop_full_period_witness:
  "(12::8 word) \<le> 24 \<and> (hop_slot ^^ 25) 12 = 12 \<and> (hop_slot ^^ 7) 12 \<noteq> 12
     \<and> distinct (hop_orbit 12) \<and> 19 \<in> set (hop_orbit 12)"
proof -
  have h: "(12::8 word) \<le> 24" by simp
  have "(0::nat) < 7 \<and> (7::nat) < 25" by simp
  then show ?thesis using h hop_full_period [OF h] by auto
qed
section \<open>Programming: the retry loop\<close>

lemma prog_range: "[0 ..< MAX_PROG_RETRIES + 2] = [0, 1, 2, 3, 4, 5, 6]"
  by (simp add: MAX_PROG_RETRIES_def upt_rec)

lemma handle_error_served:
  assumes "\<forall>n. ans_flag hw n" "\<forall>n. ans_nrf hw n = NRF_SUCCESS"
  shows "\<exists>w' l. handle_error hw outer inner code w = Ret () w'
     \<and> (l = Led1Enable \<or> l = Led1Disable)
     \<and> trace w' = trace w @ [PaDisable, ErrorMessage (take 116 outer) (take 116 inner) code, l,
          ReadStateSend (m_rfidr_state w'), WaitHvcReadState]"
  using assms by (simp add: exec_defs Let_def)

lemma program_retry_body_retry:
  assumes "\<forall>n. ans_err hw n = RFIDR_SUCCESS" "\<forall>n. ans_flag hw n"
    "\<forall>n. drop_bit 5 (ans_byte hw n) AND 7 \<noteq> 0" "i < MAX_PROG_RETRIES"
  shows "\<exists>w' b1 b2. program_retry_body hw error_info target content i () w = Ret (Next ()) w'
     \<and> trace w' = trace w @ [Call set_go_radio_oneshot, WaitIrq, Call set_irq_ack_oneshot,
           SpiRead b1, SpiRead b2, ShortMessage ''Prg.FailAt%01d-Retry'' [uint (b2 AND 7)]]"
  using assms by (simp add: program_retry_body_def exec_defs)

lemma program_retry_body_end:
  assumes "\<forall>n. ans_err hw n = RFIDR_SUCCESS" "\<forall>n. ans_flag hw n"
    "\<forall>n. drop_bit 5 (ans_byte hw n) AND 7 \<noteq> 0"
  shows "\<exists>w' b1 b2 b3. program_retry_body hw error_info target content MAX_PROG_RETRIES () w = Ret (Next ()) w'
     \<and> trace w' = trace w @ [Call set_go_radio_oneshot, WaitIrq, Call set_irq_ack_oneshot,
           SpiRead b1, SpiRead b2, SpiRead b3, ShortMessage ''Prg.FailAt%03d-End'' [uint (b3 AND 7)],
           Call set_end_radio_fsm_loop]"
  using assms by (simp add: program_retry_body_def exec_defs)

lemma program_retry_body_extra:
  assumes "\<forall>n. ans_err hw n = RFIDR_SUCCESS" "\<forall>n. ans_flag hw n" "\<forall>n. ans_nrf hw n = NRF_SUCCESS"
    "\<forall>n. drop_bit 5 (ans_byte hw n) AND 7 \<noteq> 0"
  shows "\<exists>w' b1 b2 b3 l st. program_retry_body hw error_info target content (MAX_PROG_RETRIES + 1) () w
        = Ret (Return RFIDR_ERROR_GENERAL ()) w'
     \<and> (l = Led1Enable \<or> l = Led1Disable)
     \<and> trace w' = trace w @ [Call set_go_radio_oneshot, WaitIrq, Call set_irq_ack_oneshot,
           SpiRead b1, SpiRead b2, SpiRead b3, PaDisable,
           ErrorMessage (take 116 error_info) ''prog. undef'd condt'n'' RFIDR_SUCCESS, l,
           ReadStateSend st, WaitHvcReadState]"
  using assms by (simp add: program_retry_body_def exec_defs Let_def MAX_PROG_RETRIES_def)



lemma program_attempts_always_failing:
  assumes "\<forall>n. ans_err hw n = RFIDR_SUCCESS" "\<forall>n. ans_flag hw n" "\<forall>n. ans_nrf hw n = NRF_SUCCESS"
    "\<forall>n. drop_bit 5 (ans_byte hw n) AND 7 \<noteq> 0"
  shows "\<exists>w' evs. program_attempts hw error_info target content w = Ret RFIDR_ERROR_GENERAL w'
     \<and> trace w' = trace w @ evs
     \<and> count_list evs (Call set_go_radio_oneshot) = 7
     \<and> count_list evs (Call set_irq_ack_oneshot) = 7
     \<and> count_list evs (Call set_end_radio_fsm_loop) = 1
     \<and> count_list (takeWhile (\<lambda>e. e \<noteq> Call set_end_radio_fsm_loop) evs) (Call set_go_radio_oneshot) = 6
     \<and> count_list (dropWhile (\<lambda>e. e \<noteq> Call set_end_radio_fsm_loop) evs) (Call set_go_radio_oneshot) = 1
     \<and> count_list (dropWhile (\<lambda>e. e \<noteq> Call set_end_radio_fsm_loop) evs) (Call set_irq_ack_oneshot) = 1"
proof -
  let ?body = "program_retry_body hw error_info target content"
  let ?R = "\<lambda>b1 b2. [Call set_go_radio_oneshot, WaitIrq, Call set_irq_ack_oneshot,
           SpiRead b1, SpiRead b2, ShortMessage ''Prg.FailAt%01d-Retry'' [uint (b2 AND 7)]]"
  have lt: "0 < MAX_PROG_RETRIES" "1 < MAX_PROG_RETRIES" "2 < MAX_PROG_RETRIES"
    "3 < MAX_PROG_RETRIES" "4 < MAX_PROG_RETRIES"
    by (simp_all add: MAX_PROG_RETRIES_def)
  have five: "MAX_PROG_RETRIES = 5" and six: "MAX_PROG_RETRIES + 1 = 6"
    by (simp_all add: MAX_PROG_RETRIES_def)
  obtain w1 x1 y1 where s1: "?body 0 () w = Ret (Next ()) w1"
    and t1: "trace w1 = trace w @ ?R x1 y1"
    using program_retry_body_retry [OF assms(1,2,4) lt(1), of error_info target content w] by auto
  obtain w2 x2 y2 where s2: "?body 1 () w1 = Ret (Next ()) w2"
    and t2: "trace w2 = trace w1 @ ?R x2 y2"
    using program_retry_body_retry [OF assms(1,2,4) lt(2), of error_info target content w1] by auto
  obtain w3 x3 y3 where s3: "?body 2 () w2 = Ret (Next ()) w3"
    and t3: "trace w3 = trace w2 @ ?R x3 y3"
    using program_retry_body_retry [OF assms(1,2,4) lt(3), of error_info target content w2] by auto
  obtain w4 x4 y4 where s4: "?body 3 () w3 = Ret (Next ()) w4"
    and t4: "trace w4 = trace w3 @ ?R x4 y4"
    using program_retry_body_retry [OF assms(1,2,4) lt(4), of error_info target content w3] by auto
  obtain w5 x5 y5 where s5: "?body 4 () w4 = Ret (Next ()) w5"
    and t5: "trace w5 = trace w4 @ ?R x5 y5"
    using program_retry_body_retry [OF assms(1,2,4) lt(5), of error_info target content w4] by auto
  obtain w6 x6 y6 z6 where s6: "?body 5 () w5 = Ret (Next ()) w6"
    and t6: "trace w6 = trace w5 @ [Call set_go_radio_oneshot, WaitIrq, Call set_irq_ack_oneshot,
           SpiRead x6, SpiRead y6, SpiRead z6, ShortMessage ''Prg.FailAt%03d-End'' [uint (z6 AND 7)],
           Call set_end_radio_fsm_loop]"
    using program_retry_body_end [OF assms(1,2,4), of error_info target content w5]
    unfolding five by auto
  obtain w7 x7 y7 z7 l st where s7: "?body 6 () w6 = Ret (Return RFIDR_ERROR_GENERAL ()) w7"
    and led: "l = Led1Enable \<or> l = Led1Disable"
    and t7: "trace w7 = trace w6 @ [Call set_go_radio_oneshot, WaitIrq, Call set_irq_ack_oneshot,
           SpiRead x7, SpiRead y7, SpiRead z7, PaDisable,
           ErrorMessage (take 116 error_info) ''prog. undef'd condt'n'' RFIDR_SUCCESS, l,
           ReadStateSend st, WaitHvcReadState]"
    using program_retry_body_extra [OF assms, of error_info target content w6]
    unfolding six by blast
  have loop: "for_loop [0, 1, 2, 3, 4, 5, 6] ?body () w = Ret (Return RFIDR_ERROR_GENERAL ()) w7"
    using s1 s2 s3 s4 s5 s6 s7 by simp
  have res: "program_attempts hw error_info target content w = Ret RFIDR_ERROR_GENERAL w7"
    unfolding program_attempts_def prog_range then_do_def loop by simp
  have tr: "trace w7 = trace w @ (?R x1 y1 @ ?R x2 y2 @ ?R x3 y3 @ ?R x4 y4 @ ?R x5 y5
       @ [Call set_go_radio_oneshot, WaitIrq, Call set_irq_ack_oneshot,
           SpiRead x6, SpiRead y6, SpiRead z6, ShortMessage ''Prg.FailAt%03d-End'' [uint (z6 AND 7)],
           Call set_end_radio_fsm_loop]
       @ [Call set_go_radio_oneshot, WaitIrq, Call set_irq_ack_oneshot,
           SpiRead x7, SpiRead y7, SpiRead z7, PaDisable,
           ErrorMessage (take 116 error_info) ''prog. undef'd condt'n'' RFIDR_SUCCESS, l,
           ReadStateSend st, WaitHvcReadState])"
    using t1 t2 t3 t4 t5 t6 t7 by simp
  have nl: "l \<noteq> Call set_go_radio_oneshot" "l \<noteq> Call set_irq_ack_oneshot"
    "l \<noteq> Call set_end_radio_fsm_loop"
    using led by auto
  show ?thesis
    by (intro exI conjI, rule res, rule tr) (simp_all add: nl)
qed

lemma program_core_setup:
  assumes "\<forall>n. ans_err hw n = RFIDR_SUCCESS" and "program_q_of r = Some program_q"
  shows "\<exists>w1. program_core hw error_info session target content r w
            = program_attempts hw error_info target content w1
     \<and> trace w1 = trace w @ new_events w w1
     \<and> Call set_go_radio_oneshot \<notin> set (new_events w w1)
     \<and> Call set_irq_ack_oneshot \<notin> set (new_events w w1)
     \<and> Call set_end_radio_fsm_loop \<notin> set (new_events w w1)"
  unfolding program_core_def assms(2) option.case
  using assms(1)
  apply (simp add: exec_defs)
  apply (intro conjI impI exI)
  apply (rule refl | simp add: new_events_def split: rfidr_target_epc_t.splits rfidr_program_content_t.splits)+
  done


text \<open>Claim C3. With a hardware peer whose driver calls all succeed, whose interrupts and
  confirmations arrive, and whose exit code register never reads zero, and after a search
  that passed on some path, \<open>program_core\<close> returns \<open>RFIDR_ERROR_GENERAL\<close> after exactly
  \<open>MAX_PROG_RETRIES + 2\<close> go/ack passes: \<open>MAX_PROG_RETRIES + 1\<close> programming attempts,
  then the single end-radio-FSM-loop signal, then one more go/ack pass.\<close>

theorem program_core_retry_bound:
  assumes "\<forall>n. ans_err hw n = RFIDR_SUCCESS"
    and "\<forall>n. ans_flag hw n"
    and "\<forall>n. ans_nrf hw n = NRF_SUCCESS"
    and "\<forall>n. drop_bit 5 (ans_byte hw n) AND 7 \<noteq> 0"
    and "i_pass r \<or> q_pass r"
  shows "\<exists>w'. program_core hw error_info session target content r w = Ret RFIDR_ERROR_GENERAL w'
     \<and> count_list (new_events w w') (Call set_go_radio_oneshot) = MAX_PROG_RETRIES + 2
     \<and> count_list (new_events w w') (Call set_irq_ack_oneshot) = MAX_PROG_RETRIES + 2
     \<and> count_list (new_events w w') (Call set_end_radio_fsm_loop) = 1
     \<and> count_list (takeWhile (\<lambda>e. e \<noteq> Call set_end_radio_fsm_loop) (new_events w w'))
          (Call set_go_radio_oneshot) = MAX_PROG_RETRIES + 1
     \<and> count_list (dropWhile (\<lambda>e. e \<noteq> Call set_end_radio_fsm_loop) (new_events w w'))
          (Call set_go_radio_oneshot) = 1
     \<and> count_list (dropWhile (\<lambda>e. e \<noteq> Call set_end_radio_fsm_loop) (new_events w w'))
          (Call set_irq_ack_oneshot) = 1"
proof -
  have "\<exists>program_q. program_q_of r = Some program_q"
    using assms(5) by (auto simp: program_q_of_def)
  then obtain program_q where pq: "program_q_of r = Some program_q" ..
  obtain w1 where start: "program_core hw error_info session target content r w
            = program_attempts hw error_info target content w1"
    and t1: "trace w1 = trace w @ new_events w w1"
    and n1: "Call set_go_radio_oneshot \<notin> set (new_events w w1)"
      "Call set_irq_ack_oneshot \<notin> set (new_events w w1)"
      "Call set_end_radio_fsm_loop \<notin> set (new_events w w1)"
    using program_core_setup [OF assms(1) pq] by blast
  obtain w' evs where res: "program_attempts hw error_info target content w1 = Ret RFIDR_ERROR_GENERAL w'"
    and t2: "trace w' = trace w1 @ evs"
    and c: "count_list evs (Call set_go_radio_oneshot) = 7"
      "count_list evs (Call set_irq_ack_oneshot) = 7"
      "count_list evs (Call set_end_radio_fsm_loop) = 1"
      "count_list (takeWhile (\<lambda>e. e \<noteq> Call set_end_radio_fsm_loop) evs) (Call set_go_radio_oneshot) = 6"
      "count_list (dropWhile (\<lambda>e. e \<noteq> Call set_end_radio_fsm_loop) evs) (Call set_go_radio_oneshot) = 1"
      "count_list (dropWhile (\<lambda>e. e \<noteq> Call set_end_radio_fsm_loop) evs) (Call set_irq_ack_oneshot) = 1"
    using program_attempts_always_failing [OF assms(1-4), of error_info target content w1] by blast
  let ?a = "new_events w w1"
  have ev: "new_events w w' = ?a @ evs"
    using t1 t2 by (metis append.assoc append_eq_conv_conj new_events_def)
  have z: "count_list ?a (Call set_go_radio_oneshot) = 0"
      "count_list ?a (Call set_irq_ack_oneshot) = 0"
      "count_list ?a (Call set_end_radio_fsm_loop) = 0"
    using n1 by (simp_all add: count_list_0_iff)
  have tw: "takeWhile (\<lambda>e. e \<noteq> Call set_end_radio_fsm_loop) (?a @ evs)
      = ?a @ takeWhile (\<lambda>e. e \<noteq> Call set_end_radio_fsm_loop) evs"
    using n1(3) by (intro takeWhile_append2) auto
  have dw: "dropWhile (\<lambda>e. e \<noteq> Call set_end_radio_fsm_loop) (?a @ evs)
      = dropWhile (\<lambda>e. e \<noteq> Call set_end_radio_fsm_loop) evs"
    using n1(3) by (intro dropWhile_append2) auto
  show ?thesis
    using c z by (intro exI [of _ w']) (simp add: start res ev tw dw MAX_PROG_RETRIES_def)
qed

theorem program_core_retry_bound_witness:
  "\<exists>w'. program_core (hw_const RFIDR_SUCCESS 0 0xFF True) ''programming'' SESSION_S0
            TARGET_APP_SPECD_EPC PROGRAM_NEW_EPC (found_on_i 100 20) boot_world
          = Ret RFIDR_ERROR_GENERAL w'
     \<and> count_list (new_events boot_world w') (Call set_go_radio_oneshot) = 7
     \<and> count_list (new_events boot_world w') (Call set_end_radio_fsm_loop) = 1"
proof -
  let ?hw = "hw_const RFIDR_SUCCESS 0 0xFF True"
  have a: "\<forall>n. ans_err ?hw n = RFIDR_SUCCESS" "\<forall>n. ans_flag ?hw n"
    "\<forall>n. ans_nrf ?hw n = NRF_SUCCESS" "\<forall>n. drop_bit 5 (ans_byte ?hw n) AND 7 \<noteq> 0"
    by (simp_all add: hw_const_def NRF_SUCCESS_def)
  have b: "i_pass (found_on_i 100 20) \<or> q_pass (found_on_i 100 20)"
    by (simp add: found_on_i_def blank_return_struct_def)
  show ?thesis
    using program_core_retry_bound [OF a b, of "''programming''" SESSION_S0 TARGET_APP_SPECD_EPC
        PROGRAM_NEW_EPC boot_world]
    by (auto simp: MAX_PROG_RETRIES_def)
qed
section \<open>Rules for specifications\<close>

lemma valid_Ret: "(\<And>w. P w \<Longrightarrow> Q a w) \<Longrightarrow> valid P (Ret a) Q E"
  by (simp add: valid_def)

lemma valid_then_do:
  assumes "valid P m Q' E" and "\<And>a. valid (Q' a) (k a) Q E"
  shows "valid P (then_do m k) Q E"
  using assms unfolding valid_def then_do_def
  by (fastforce split: res.splits)

lemma valid_weaken:
  assumes "valid P' m Q' E'" and "\<And>w. P w \<Longrightarrow> P' w" and "\<And>a w. Q' a w \<Longrightarrow> Q a w" and "\<And>w. E' w \<Longrightarrow> E w"
  shows "valid P m Q E"
  using assms unfolding valid_def
  by (fastforce split: res.splits)

lemma valid_checked:
  assumes "valid P m Q' E"
    and "\<And>rc. rc \<noteq> RFIDR_SUCCESS \<Longrightarrow> valid (Q' rc) (on_error rc) Q E"
    and "valid (Q' RFIDR_SUCCESS) k Q E"
  shows "valid P (checked m on_error k) Q E"
  unfolding checked_def
  by (rule valid_then_do [OF assms(1)]) (simp add: assms(2,3))

lemma valid_result_ignored:
  assumes "valid P m Q' E" and "\<And>rc. valid (Q' rc) k Q E"
  shows "valid P (result_ignored m k) Q E"
  unfolding result_ignored_def
  by (rule valid_then_do [OF assms(1)]) (simp add: assms(2))

lemma valid_after:
  assumes "valid P' m Q E" and "\<And>w. P w \<Longrightarrow> P' (f w)"
  shows "valid P (\<lambda>w. m (f w)) Q E"
  using assms unfolding valid_def by simp

lemma valid_if:
  assumes "c \<Longrightarrow> valid P a Q E" and "\<not> c \<Longrightarrow> valid P b Q E"
  shows "valid P (if c then a else b) Q E"
  using assms by simp


lemma valid_for_loop:
  assumes "\<And>i s. valid (I s) (body i s) (\<lambda>c w. case c of Next s' \<Rightarrow> I s' w | other \<Rightarrow> Q other w) E"
    and "\<And>s w. I s w \<Longrightarrow> Q (Next s) w"
  shows "valid (I s) (for_loop xs body s) Q E"
proof (induction xs arbitrary: s)
  case Nil
  then show ?case using assms(2) by (simp add: valid_def)
next
  case (Cons i xs)
  show ?case
    unfolding valid_def
  proof (intro allI impI)
    fix w assume "I s w"
    then have b: "case body i s w of Ret c w' \<Rightarrow> (case c of Next s' \<Rightarrow> I s' w' | other \<Rightarrow> Q other w')
         | Stuck w' \<Rightarrow> E w' | Reset w' \<Rightarrow> E w' | OutOfFuel \<Rightarrow> True"
      using assms(1) [of s i] by (simp add: valid_def)
    show "case for_loop (i # xs) body s w of Ret a w' \<Rightarrow> Q a w' | Stuck w' \<Rightarrow> E w' | Reset w' \<Rightarrow> E w'
         | OutOfFuel \<Rightarrow> True"
    proof (cases "body i s w")
      case (Ret c w')
      then show ?thesis
        using b Cons.IH unfolding valid_def
        by (cases c) auto
    qed (use b in auto)
  qed
qed

section \<open>Stable properties\<close>

lemma stable_consume: "stable ok I \<Longrightarrow> I w \<Longrightarrow> I (consume w)"
  unfolding stable_def by blast

lemma stable_emit: "stable ok I \<Longrightarrow> incidental e \<or> ok e \<Longrightarrow> I w \<Longrightarrow> I (emit e w)"
  unfolding stable_def by blast

lemma stable_io: "stable ok I \<Longrightarrow> incidental e \<or> ok e \<Longrightarrow> I w \<Longrightarrow> I (consume (emit e w))"
  by (blast intro: stable_emit stable_consume)

lemma stable_fields:
  assumes "stable ok I" and "I w"
  shows "I (w\<lparr>pa_enabled := b\<rparr>)" and "I (w\<lparr>led1 := b\<rparr>)"
    and "I (w\<lparr>m_track_tag_state_flag := b\<rparr>)" and "I (w\<lparr>m_dtc_state_flag := b\<rparr>)"
    and "I (w\<lparr>m_rfidr_state := s\<rparr>)" and "I (w\<lparr>m_rfidr_state_next := s\<rparr>)"
  using assms unfolding stable_def by blast+

lemma keeps_driver:
  assumes "stable ok I" and "ok (Call c)"
  shows "valid I (driver hw c) (\<lambda>rc. I) E"
  using assms by (simp add: valid_def driver_def stable_io)

lemma keeps_spin_wait:
  assumes "stable ok I" and "incidental e"
  shows "valid I (spin_wait hw e) (\<lambda>u. I) I"
  using assms by (simp add: valid_def spin_wait_def stable_io)

lemma keeps_spi_read:
  assumes "stable ok I"
  shows "valid I (spi_read hw) (\<lambda>b. I) E"
  using assms by (simp add: valid_def spi_read_def stable_io)

lemma keeps_enable_pa:
  assumes "stable ok I"
  shows "valid I rfidr_enable_pa (\<lambda>rc w. rc = RFIDR_SUCCESS \<and> I w) E"
  using assms by (simp add: valid_def rfidr_enable_pa_def stable_emit stable_fields)

lemma keeps_disable_pa:
  assumes "stable ok I"
  shows "valid I rfidr_disable_pa (\<lambda>rc w. rc = RFIDR_SUCCESS \<and> I w) E"
  using assms by (simp add: valid_def rfidr_disable_pa_def stable_emit stable_fields)

lemma keeps_short_message: "stable ok I \<Longrightarrow> I w \<Longrightarrow> I (send_short_message hw fmt args w)"
  by (simp add: send_short_message_def stable_io)

lemma keeps_led1:
  assumes "stable ok I" and "I w"
  shows "I (rfidr_enable_led1 w)" and "I (rfidr_disable_led1 w)" and "I (rfidr_toggle_led1 w)"
  using assms
  by (simp_all add: rfidr_enable_led1_def rfidr_disable_led1_def rfidr_toggle_led1_def
      stable_emit stable_fields)

lemma keeps_bookend:
  assumes "stable ok I"
  shows "valid I (rfidr_state_bookend_function hw) (\<lambda>u. I) I"
  using assms
  by (simp add: valid_def rfidr_state_bookend_function_def spin_wait_def Let_def stable_io)

lemma keeps_handle_error:
  assumes "stable ok I"
  shows "valid I (handle_error hw outer inner code) (\<lambda>u. I) I"
  unfolding valid_def
proof (intro allI impI)
  fix w assume w: "I w"
  let ?w1 = "emit PaDisable (w\<lparr>pa_enabled := False\<rparr>)"
  let ?w2 = "consume (emit (ErrorMessage (take 116 outer) (take 116 inner) code) ?w1)"
  let ?w3 = "?w2\<lparr>m_track_tag_state_flag := False, m_dtc_state_flag := False\<rparr>"
  let ?w4 = "(if m_rfidr_state ?w3 = IDLE_UNCONFIGURED \<or> m_rfidr_state ?w3 = INITIALIZING
                   then (rfidr_disable_led1 ?w3)
                          \<lparr>m_rfidr_state_next := IDLE_UNCONFIGURED, m_rfidr_state := IDLE_UNCONFIGURED\<rparr>
                   else (rfidr_enable_led1 ?w3)
                          \<lparr>m_rfidr_state_next := IDLE_CONFIGURED, m_rfidr_state := IDLE_CONFIGURED\<rparr>)"
  have 1: "I ?w1" using assms w by (simp add: stable_emit stable_fields)
  have 2: "I ?w2" using assms 1 by (simp add: stable_io)
  have 3: "I ?w3" using assms 2 by (simp add: stable_fields)
  have "I (rfidr_disable_led1 ?w3)" "I (rfidr_enable_led1 ?w3)"
    using keeps_led1 [OF assms 3] by simp_all
  then have 4: "I ?w4" using assms by (simp add: stable_fields)
  have eq: "handle_error hw outer inner code w = rfidr_state_bookend_function hw ?w4"
    by (simp add: handle_error_def then_do_def rfidr_disable_pa_def Let_def)
  show "case handle_error hw outer inner code w of Ret a w' \<Rightarrow> I w' | Stuck w' \<Rightarrow> I w' | Reset w' \<Rightarrow> I w'
      | OutOfFuel \<Rightarrow> True"
    unfolding eq using keeps_bookend [OF assms, of hw] 4 by (simp add: valid_def)
qed

lemma keeps_fail_with:
  assumes "stable ok I" and "\<And>w. I w \<Longrightarrow> Q ret w"
  shows "valid I (fail_with hw outer inner code ret) Q I"
  unfolding fail_with_def
  by (rule valid_then_do [OF keeps_handle_error [OF assms(1)]]) (simp add: valid_Ret assms(2))

lemma valid_modify:
  assumes "valid P' k Q E" and "\<And>w. P w \<Longrightarrow> P' (f w)"
  shows "valid P (modify f k) Q E"
  using assms unfolding valid_def modify_def by simp

lemma valid_case_ctl:
  assumes "\<And>s. c = Next s \<Longrightarrow> valid P (f s) Q E"
    and "\<And>s. c = Break s \<Longrightarrow> valid P (g s) Q E"
    and "\<And>e s. c = Return e s \<Longrightarrow> valid P (h e s) Q E"
  shows "valid P (case c of Next s \<Rightarrow> f s | Break s \<Rightarrow> g s | Return e s \<Rightarrow> h e s) Q E"
  using assms by (cases c) simp_all

lemma valid_False: "valid (\<lambda>w. False) m Q E"
  by (simp add: valid_def)

lemma keeps_then_do:
  assumes "valid I m (\<lambda>a. I) E" and "\<And>a. valid I (k a) Q E"
  shows "valid I (then_do m k) Q E"
  using assms by (rule valid_then_do)

lemma keeps_checked:
  assumes "valid I m (\<lambda>a. I) E" and "\<And>rc. valid I (on_error rc) Q E" and "valid I k Q E"
  shows "valid I (checked m on_error k) Q E"
  by (rule valid_checked [OF assms(1)]) (simp_all add: assms(2,3))

lemma keeps_result_ignored:
  assumes "valid I m (\<lambda>a. I) E" and "valid I k Q E"
  shows "valid I (result_ignored m k) Q E"
  by (rule valid_result_ignored [OF assms(1)]) (simp add: assms(2))

lemma keeps_enable_pa': "stable ok I \<Longrightarrow> valid I rfidr_enable_pa (\<lambda>rc. I) E"
  by (rule valid_weaken [OF keeps_enable_pa]) simp_all

lemma keeps_disable_pa': "stable ok I \<Longrightarrow> valid I rfidr_disable_pa (\<lambda>rc. I) E"
  by (rule valid_weaken [OF keeps_disable_pa]) simp_all

lemma keeps_modify_message:
  assumes "stable ok I" and "valid I k Q E"
  shows "valid I (modify (send_short_message hw fmt args) k) Q E"
  using assms(2) by (rule valid_modify) (simp add: keeps_short_message [OF assms(1)])

lemma keeps_read_radio_exit_code: "stable ok I \<Longrightarrow> valid I (read_radio_exit_code hw) (\<lambda>c. I) E"
  unfolding read_radio_exit_code_def
  by (rule keeps_then_do [OF keeps_spi_read]) (simp_all add: valid_Ret)

lemma keeps_read_radio_write_cntr: "stable ok I \<Longrightarrow> valid I (read_radio_write_cntr hw) (\<lambda>c. I) E"
  unfolding read_radio_write_cntr_def
  by (rule keeps_then_do [OF keeps_spi_read]) (simp_all add: valid_Ret)

lemma keeps_modify:
  assumes "valid I k Q E" and "\<And>w. I w \<Longrightarrow> I (f w)"
  shows "valid I (modify f k) Q E"
  using assms by (rule valid_modify)






text \<open>The same for the operations that can hang or reset, when nothing is claimed about a run
  that does.\<close>

lemma returning:
  assumes "valid I m Q I"
  shows "valid I m Q (\<lambda>w. True)"
  using assms by (rule valid_weaken) simp_all


lemma returning_bookend:
  "stable ok I \<Longrightarrow> valid I (rfidr_state_bookend_function hw) (\<lambda>u. I) (\<lambda>w. True)"
  by (rule returning [OF keeps_bookend])

lemma returning_handle_error:
  "stable ok I \<Longrightarrow> valid I (handle_error hw outer inner code) (\<lambda>u. I) (\<lambda>w. True)"
  by (rule returning [OF keeps_handle_error])







section \<open>Frequency skips while tracking\<close>

lemma keeps_write_frequency_registers:
  assumes "stable ok I" and "\<And>a b. ok (Call (spi_cntrlr_write_sx1257_robust a b))"
  shows "valid I (write_frequency_registers hw code) (\<lambda>rc. I) E"
  unfolding write_frequency_registers_def Let_def
  by (intro keeps_checked keeps_driver [OF assms(1)] assms(2) valid_Ret) simp_all

lemma keeps_set_sx1257_lna_gain:
  assumes "stable ok I" and "\<And>a b. ok (Call (spi_cntrlr_write_sx1257_robust a b))"
  shows "valid I (set_sx1257_lna_gain hw g) (\<lambda>rc. I) E"
  unfolding set_sx1257_lna_gain_def
  by (intro keeps_checked keeps_driver [OF assms(1)] assms(2) valid_Ret) simp_all

lemma keeps_end_inventory:
  assumes "stable ok I" and "ok (Call set_end_radio_fsm_loop)" and "ok (Call set_go_radio_oneshot)"
    and "ok (Call set_irq_ack_oneshot)"
  shows "valid I (end_inventory hw error_info) (\<lambda>rc. I) I"
  unfolding end_inventory_def
  by (intro keeps_checked keeps_then_do keeps_driver [OF assms(1)] keeps_disable_pa' [OF assms(1)]
      keeps_fail_with [OF assms(1)] keeps_spin_wait [OF assms(1)] keeps_modify valid_Ret assms)
    (simp_all add: keeps_led1 [OF assms(1)])

lemma skip_slot_arith:
  assumes "s \<le> 24" and "k < 3"
  shows "skip_frequency_slot_of s k \<le> 24"
    and "22 \<le> s \<Longrightarrow> unat (skip_frequency_slot_of s k) = unat s - (3 - unat k)"
    and "s < 22 \<Longrightarrow> unat (skip_frequency_slot_of s k) = unat s + (3 - unat k)"
proof -
  have k: "unat k < 3" using assms(2) by (simp add: word_less_nat_alt)
  have s: "unat s \<le> 24" using assms(1) by (simp add: word_le_nat_alt)
  have d: "unat (3 - k) = 3 - unat k"
    using assms(2) by (simp add: unat_sub)
  show c2: "unat (skip_frequency_slot_of s k) = unat s - (3 - unat k)" if "22 \<le> s"
  proof -
    have "22 \<le> unat s" using that by (simp add: word_le_nat_alt)
    then have "3 - k \<le> s" using d k by (simp add: word_le_nat_alt)
    then show ?thesis using that d by (simp add: skip_frequency_slot_of_def unat_sub)
  qed
  show c3: "unat (skip_frequency_slot_of s k) = unat s + (3 - unat k)" if "s < 22"
  proof -
    have "unat s < 22" using that by (simp add: word_less_nat_alt)
    then have "unat s + unat (3 - k) < 2 ^ LENGTH(8)" using d by simp
    then have "unat (s + (3 - k)) = unat s + unat (3 - k)" using unat_add_lem [of s "3 - k"] by simp
    then show ?thesis using that d by (simp add: skip_frequency_slot_of_def not_le [symmetric])
  qed
  show "skip_frequency_slot_of s k \<le> 24"
  proof (cases "22 \<le> s")
    case True
    then show ?thesis using c2 s by (simp add: word_le_nat_alt)
  next
    case False
    then have lt: "s < 22" by simp
    then have "unat s < 22" by (simp add: word_less_nat_alt)
    then show ?thesis using c3 [OF lt] k by (simp add: word_le_nat_alt)
  qed
qed

text \<open>Claim C7, as the code has it. A skip during tracking goes to a slot that is
  \<open>3 - loop_cal_fails_outer\<close> channels from the slot \<open>s\<close> of the last hop: 3 channels on the
  first attempt, 2 and 1 on the two calibration retries; downward when \<open>s \<ge> 22\<close>, upward
  otherwise; the target always lies in 0..24. The skip tunes the radio with
  \<open>set_sx1257_frequency\<close>, does not hop and leaves the nonce alone.\<close>

theorem tracking_skip_target:
  assumes "s \<le> 24" and "k < 3"
  shows "skip_frequency_slot_of s k \<le> 24
     \<and> (if 22 \<le> s then unat (skip_frequency_slot_of s k) = unat s - (3 - unat k)
         else unat (skip_frequency_slot_of s k) = unat s + (3 - unat k))
     \<and> (\<forall>w'. outcome_world (tracking_hop_or_skip hw error_info True k (s, old) w) = Some w'
           \<longrightarrow> take 1 (new_events w w') = [SetSx1257Frequency (skip_frequency_slot_of s k)]
             \<and> (\<forall>x. HopSx1257Frequency x \<notin> set (new_events w w'))
             \<and> m_hopskip_nonce w' = m_hopskip_nonce w)"
proof -
  define t where "t = skip_frequency_slot_of s k"
  define J where "J = (\<lambda>w'::world. length (trace w) < length (trace w')
      \<and> take (Suc (length (trace w))) (trace w') = trace w @ [SetSx1257Frequency t]
      \<and> (\<forall>x. HopSx1257Frequency x \<notin> set (drop (length (trace w)) (trace w')))
      \<and> m_hopskip_nonce w' = m_hopskip_nonce w)"
  let ?ok = "\<lambda>e. \<forall>x. e \<noteq> HopSx1257Frequency x"
  have st: "stable ?ok J"
    unfolding stable_def J_def emit_def consume_def
    by (auto elim: incidental.elims)
  have v: "valid (\<lambda>w'. w' = w) (tracking_hop_or_skip hw error_info True k (s, old)) (\<lambda>c. J) J"
    unfolding tracking_hop_or_skip_def
    apply (simp add: t_def [symmetric])
    apply (rule valid_checked [where Q' = "\<lambda>rc. J"])
    subgoal
      unfolding set_sx1257_frequency_def
      apply (rule valid_modify [where P' = J])
       apply (rule keeps_write_frequency_registers [OF st])
       apply simp
      apply (simp add: J_def emit_def)
      done
    subgoal
      by (intro keeps_then_do keeps_end_inventory [OF st] keeps_fail_with [OF st]) simp_all
    subgoal
      by (rule valid_Ret) simp
    done
  have "take 1 (new_events w w') = [SetSx1257Frequency t]
             \<and> (\<forall>x. HopSx1257Frequency x \<notin> set (new_events w w'))
             \<and> m_hopskip_nonce w' = m_hopskip_nonce w"
    if "outcome_world (tracking_hop_or_skip hw error_info True k (s, old) w) = Some w'" for w'
  proof -
    have "J w'"
      using v that unfolding valid_def
      by (cases "tracking_hop_or_skip hw error_info True k (s, old) w") auto
    then show ?thesis
      unfolding J_def new_events_def
      by (auto simp: take_Suc_conv_app_nth take_drop  dest!: arg_cong [where f = "drop (length (trace w))"])
  qed
  then show ?thesis
    using skip_slot_arith [OF assms] by (auto simp: t_def)
qed

theorem tracking_skip_target_witness:
  "(22::8 word) \<le> 24 \<and> (0::8 word) < 3 \<and> skip_frequency_slot_of 22 0 \<le> 24
     \<and> unat (skip_frequency_slot_of 22 0) = 19
     \<and> (\<exists>w'. tracking_hop_or_skip (hw_const RFIDR_SUCCESS 0 0 True) ''tracking'' True 0 (22, 0) boot_world
              = Ret (Next (22, 19)) w'
          \<and> take 1 (new_events boot_world w') = [SetSx1257Frequency 19]
          \<and> m_hopskip_nonce w' = 0)"
proof -
  let ?hw = "hw_const RFIDR_SUCCESS 0 0 True"
  have a: "(22::8 word) \<le> 24" "(0::8 word) < 3" by simp_all
  have s19: "skip_frequency_slot_of 22 0 = 19" by (simp add: skip_frequency_slot_of_def)
  have "\<exists>w'. tracking_hop_or_skip ?hw ''tracking'' True 0 (22, 0) boot_world = Ret (Next (22, 19)) w'"
    by (simp add: tracking_hop_or_skip_def s19 set_sx1257_frequency_def write_frequency_registers_def
        exec_defs hw_const_def Let_def)
  then obtain w' where r: "tracking_hop_or_skip ?hw ''tracking'' True 0 (22, 0) boot_world = Ret (Next (22, 19)) w'" ..
  then have o: "outcome_world (tracking_hop_or_skip ?hw ''tracking'' True 0 (22, 0) boot_world) = Some w'"
    by simp
  show ?thesis
    using tracking_skip_target [OF a, of ?hw "''tracking''" 0 boot_world] r o
    by (auto simp: s19 boot_world_def)
qed

text \<open>Claim C7 as stated says that every skip, calibration retries included, is offset by
  exactly 3 channels. On the first retry (\<open>loop_cal_fails_outer = 1\<close>) from slot 5 the code
  tunes to slot 7, which is neither 5 + 3 nor 5 - 3.\<close>

theorem tracking_skip_retry_counterexample:
  "skip_frequency_slot_of 5 1 = 7
     \<and> skip_frequency_slot_of 5 1 \<noteq> 5 + 3 \<and> skip_frequency_slot_of 5 1 \<noteq> 5 - 3
     \<and> take 1 (case tracking_hop_or_skip (hw_const RFIDR_SUCCESS 0 0 True) ''tracking'' True 1 (5, 0)
                      boot_world of Ret c w' \<Rightarrow> trace w' | Stuck w' \<Rightarrow> [] | Reset w' \<Rightarrow> []
                 | OutOfFuel \<Rightarrow> [])
          = [SetSx1257Frequency 7]"
proof -
  have s7: "skip_frequency_slot_of 5 1 = 7" by (simp add: skip_frequency_slot_of_def)
  show ?thesis
    by (simp add: tracking_hop_or_skip_def s7 set_sx1257_frequency_def write_frequency_registers_def
        exec_defs hw_const_def Let_def boot_world_def)
qed
subsection \<open>Which path \<open>program_core\<close> programs on\<close>

lemma keeps_for_loop:
  assumes "\<And>i s. valid I (body i s) (\<lambda>c. I) I"
  shows "valid I (for_loop xs body s) (\<lambda>c. I) I"
proof -
  have "valid ((\<lambda>s. I) s) (for_loop xs body s) (\<lambda>c. I) I"
  proof (rule valid_for_loop)
    fix i s
    show "valid I (body i s) (\<lambda>c w. case c of Next s' \<Rightarrow> I w | other \<Rightarrow> I w) I"
      by (rule valid_weaken [OF assms]) (auto split: ctl.splits)
  qed simp
  then show ?thesis by simp
qed

lemma keeps_program_retry_body:
  assumes "stable ok I" and "ok (Call set_go_radio_oneshot)" and "ok (Call set_irq_ack_oneshot)"
    and "ok (Call set_end_radio_fsm_loop)" and "\<And>t. ok (Call (rfidr_pull_and_check_read_data t))"
  shows "valid I (program_retry_body hw error_info target content i s) (\<lambda>c. I) I"
  unfolding program_retry_body_def
  by (intro keeps_checked keeps_then_do keeps_result_ignored valid_if keeps_driver [OF assms(1)]
      keeps_fail_with [OF assms(1)] keeps_spin_wait [OF assms(1)] keeps_modify_message [OF assms(1)]
      keeps_read_radio_exit_code [OF assms(1)] keeps_read_radio_write_cntr [OF assms(1)]
      valid_Ret assms(2-5))
    simp_all

lemma keeps_program_attempts:
  assumes "stable ok I" and "ok (Call set_go_radio_oneshot)" and "ok (Call set_irq_ack_oneshot)"
    and "ok (Call set_end_radio_fsm_loop)" and "\<And>t. ok (Call (rfidr_pull_and_check_read_data t))"
  shows "valid I (program_attempts hw error_info target content) (\<lambda>c. I) I"
  unfolding program_attempts_def
  apply (rule keeps_then_do)
   apply (rule keeps_for_loop)
   apply (rule keeps_program_retry_body [OF assms])
  apply (rule valid_case_ctl)
    apply (intro keeps_checked keeps_disable_pa' [OF assms(1)] keeps_fail_with [OF assms(1)] valid_Ret; simp)+
  done


lemma valid_driver:
  assumes "\<And>w. P w \<Longrightarrow> Q (ans_err hw (tick w)) (consume (emit (Call c) w))"
  shows "valid P (driver hw c) Q E"
  using assms by (simp add: valid_def driver_def)

lemma program_q_of_cases:
  "(program_q_of r = Some 0) =
      (if i_pass r then sint (i_alt_mag r) < sint (i_main_mag r)
       else q_pass r \<and> \<not> sint (q_alt_mag r) < sint (q_main_mag r))"
  "(program_q_of r = Some 1) =
      (if i_pass r then \<not> sint (i_alt_mag r) < sint (i_main_mag r)
       else q_pass r \<and> sint (q_alt_mag r) < sint (q_main_mag r))"
  "(program_q_of r = None) = (\<not> i_pass r \<and> \<not> q_pass r)"
  "program_q_of r = Some pq \<Longrightarrow> pq = 0 \<or> pq = 1"
  by (auto simp: program_q_of_def split: if_splits)

lemma program_core_uses:
  fixes w :: world
  defines "n \<equiv> length (trace w)"
  shows "valid (\<lambda>w'. w' = w) (program_core hw error_info session target content r)
     (\<lambda>e w'. n \<le> length (trace w')
        \<and> (Call set_use_i \<in> set (drop n (trace w'))) = (program_q_of r = Some 0)
        \<and> (Call set_use_q \<in> set (drop n (trace w'))) = (program_q_of r = Some 1)
        \<and> (program_q_of r = None \<longrightarrow> e = RFIDR_ERROR_GENERAL))
     (\<lambda>w'. n \<le> length (trace w')
        \<and> (Call set_use_i \<in> set (drop n (trace w'))) = (program_q_of r = Some 0)
        \<and> (Call set_use_q \<in> set (drop n (trace w'))) = (program_q_of r = Some 1))"
proof -
  define J0 where "J0 = (\<lambda>w'::world. n \<le> length (trace w')
        \<and> Call set_use_i \<notin> set (drop n (trace w')) \<and> Call set_use_q \<notin> set (drop n (trace w')))"
  define J1 where "J1 = (\<lambda>w'::world. n \<le> length (trace w')
        \<and> (Call set_use_i \<in> set (drop n (trace w'))) = (program_q_of r = Some 0)
        \<and> (Call set_use_q \<in> set (drop n (trace w'))) = (program_q_of r = Some 1))"
  let ?ok = "\<lambda>e. e \<noteq> Call set_use_i \<and> e \<noteq> Call set_use_q"
  have st0: "stable ?ok J0"
    unfolding stable_def J0_def emit_def consume_def by (auto elim: incidental.elims)
  have st1: "stable ?ok J1"
    unfolding stable_def J1_def emit_def consume_def by (auto elim: incidental.elims)
  have start: "J0 w" by (simp add: J0_def n_def)
  have "valid J0 (program_core hw error_info session target content r)
          (\<lambda>e w'. J1 w' \<and> (program_q_of r = None \<longrightarrow> e = RFIDR_ERROR_GENERAL)) J1"
  proof (cases "program_q_of r")
    case None
    have eq: "J1 = J0" by (simp add: J1_def J0_def None)
    show ?thesis
      unfolding program_core_def None option.case eq
      by (intro keeps_result_ignored keeps_driver [OF st0] keeps_fail_with [OF st0]) simp_all
  next
    case (Some pq)
    have step: "valid J0 (driver hw (if pq = 0 then set_use_i else set_use_q)) (\<lambda>rc. J1) J1"
      using program_q_of_cases(4) [OF Some]
      by (intro valid_driver) (auto simp: J0_def J1_def Some emit_def consume_def)
    have d0: "valid J0 (driver hw c) (\<lambda>rc. J0) J1" if "?ok (Call c)" for c
      using that by (intro valid_driver) (simp add: stable_io [OF st0])
    show ?thesis
      unfolding program_core_def Some option.case
      apply (intro valid_result_ignored [where Q' = "\<lambda>rc. J0"] d0; (simp; fail)?)
      apply (rule valid_checked [OF step])
       apply (rule keeps_fail_with [OF st1], simp add: Some)
      apply (intro keeps_checked keeps_result_ignored keeps_driver [OF st1] keeps_fail_with [OF st1]
          keeps_enable_pa' [OF st1] keeps_set_sx1257_lna_gain [OF st1] valid_if valid_Ret)
                          apply (simp_all add: Some split: rfidr_target_epc_t.splits rfidr_program_content_t.splits)
      apply (rule keeps_program_attempts [OF st1]; simp)
      done
  qed
  then show ?thesis
    by (rule valid_weaken) (simp_all add: start J1_def)
qed

text \<open>Claim C6, amended. \<open>program_core\<close> looks at one path only: the I path when it passed,
  otherwise the Q path when that one passed. It programs on the path that passed when that
  exchange's main magnitude is larger than its alternate magnitude, and on the other path
  otherwise; the main magnitudes of I and Q are never compared with each other. In every run,
  however it ends, \<open>set_use_i\<close> is issued exactly in the first case and \<open>set_use_q\<close>
  exactly in the second. When neither path passed, neither is issued and a run that returns
  returns \<open>RFIDR_ERROR_GENERAL\<close>.\<close>

theorem program_core_path_choice:
  "(\<forall>w'. outcome_world (program_core hw error_info session target content r w) = Some w' \<longrightarrow>
      (Call set_use_i \<in> set (new_events w w')) =
        (if i_pass r then sint (i_alt_mag r) < sint (i_main_mag r)
         else q_pass r \<and> \<not> sint (q_alt_mag r) < sint (q_main_mag r))
    \<and> (Call set_use_q \<in> set (new_events w w')) =
        (if i_pass r then \<not> sint (i_alt_mag r) < sint (i_main_mag r)
         else q_pass r \<and> sint (q_alt_mag r) < sint (q_main_mag r)))
   \<and> (\<forall>e w'. \<not> i_pass r \<and> \<not> q_pass r
         \<and> program_core hw error_info session target content r w = Ret e w'
        \<longrightarrow> e = RFIDR_ERROR_GENERAL)"
  using program_core_uses [of w hw error_info session target content r]
  unfolding valid_def new_events_def program_q_of_cases(1-3)
  by (auto split: res.splits)

theorem program_core_path_choice_witness:
  "(\<exists>w'. outcome_world (program_core (hw_faulty_from 7) ''program'' SESSION_S0 TARGET_APP_SPECD_EPC
                  PROGRAM_NEW_EPC (found_on_i 100 20) boot_world) = Some w'
        \<and> Call set_use_i \<in> set (new_events boot_world w')
        \<and> Call set_use_q \<notin> set (new_events boot_world w'))
   \<and> (\<exists>w'. program_core (hw_faulty_from 7) ''program'' SESSION_S0 TARGET_APP_SPECD_EPC
                  PROGRAM_NEW_EPC blank_return_struct boot_world = Ret RFIDR_ERROR_GENERAL w')"
proof -
  let ?hw = "hw_faulty_from 7"
  let ?run = "\<lambda>r. program_core ?hw ''program'' SESSION_S0 TARGET_APP_SPECD_EPC PROGRAM_NEW_EPC r boot_world"
  have "\<exists>e w'. ?run (found_on_i 100 20) = Ret e w'"
    by (simp add: program_core_def program_q_of_def found_on_i_def blank_return_struct_def
        hw_faulty_from_def exec_defs boot_world_def Let_def)
  then obtain e w' where r1: "?run (found_on_i 100 20) = Ret e w'" by blast
  have "\<exists>e w'. ?run blank_return_struct = Ret e w'"
    by (simp add: program_core_def program_q_of_def blank_return_struct_def
        hw_faulty_from_def exec_defs boot_world_def Let_def)
  then obtain e2 w2 where r2: "?run blank_return_struct = Ret e2 w2" by blast
  have m: "i_pass (found_on_i 100 20)" "sint (i_alt_mag (found_on_i 100 20)) < sint (i_main_mag (found_on_i 100 20))"
    "\<not> i_pass blank_return_struct" "\<not> q_pass blank_return_struct"
    by (simp_all add: found_on_i_def blank_return_struct_def)
  have "Call set_use_i \<in> set (new_events boot_world w') \<and> Call set_use_q \<notin> set (new_events boot_world w')"
    using program_core_path_choice [of ?hw "''program''" SESSION_S0 TARGET_APP_SPECD_EPC
        PROGRAM_NEW_EPC "found_on_i 100 20" boot_world] r1 m
    by simp
  moreover have "e2 = RFIDR_ERROR_GENERAL"
    using program_core_path_choice [of ?hw "''program''" SESSION_S0 TARGET_APP_SPECD_EPC
        PROGRAM_NEW_EPC blank_return_struct boot_world] r2 m
    by blast
  ultimately show ?thesis using r1 r2 by auto
qed

text \<open>Claim C6 as stated says that a path that passed alone is the one chosen. After a search
  that passed on I only, with a main magnitude of 1 and an alternate magnitude of 5 for that
  exchange, the code selects Q.\<close>

theorem program_core_single_pass_counterexample:
  "i_pass (found_on_i 1 5) \<and> \<not> q_pass (found_on_i 1 5)
     \<and> program_q_of (found_on_i 1 5) = Some 1
     \<and> take 7 (case program_core (hw_faulty_from 7) ''program'' SESSION_S0 TARGET_APP_SPECD_EPC
                       PROGRAM_NEW_EPC (found_on_i 1 5) boot_world
                 of Ret e w' \<Rightarrow> trace w' | Stuck w' \<Rightarrow> [] | Reset w' \<Rightarrow> [] | OutOfFuel \<Rightarrow> [])
          = [Call (set_select_target TARGET_SL), Call (set_select_action ACTION_A0),
             Call (set_query_sel SEL_PSL), Call (set_query_session SESSION_S0),
             Call (set_query_target TARGET_A), Call (set_query_q 0), Call set_use_q]"
  by (simp add: program_core_def program_q_of_def found_on_i_def blank_return_struct_def
      hw_faulty_from_def exec_defs boot_world_def Let_def)

subsection \<open>The result structure of \<open>search_core\<close>\<close>














section \<open>Runs that return\<close>

lemma returns_Ret: "(\<And>w. P w \<Longrightarrow> Q a w) \<Longrightarrow> returns P (Ret a) Q"
  by (simp add: returns_def)

lemma returns_then_do:
  assumes "returns P m Q'" and "\<And>a. returns (Q' a) (k a) Q"
  shows "returns P (then_do m k) Q"
  using assms unfolding returns_def then_do_def by fastforce

lemma returns_weaken:
  assumes "returns P' m Q'" and "\<And>w. P w \<Longrightarrow> P' w" and "\<And>a w. Q' a w \<Longrightarrow> Q a w"
  shows "returns P m Q"
  using assms unfolding returns_def by fastforce

lemma returns_pure:
  assumes "C \<Longrightarrow> returns P m Q"
  shows "returns (\<lambda>w. C \<and> P w) m Q"
  using assms by (cases C) (simp_all add: returns_def)

lemma returns_checked:
  assumes "returns P m (\<lambda>rc w. rc = RFIDR_SUCCESS \<and> P' w)" and "returns P' k Q"
  shows "returns P (checked m on_error k) Q"
  unfolding checked_def
  by (rule returns_then_do [OF assms(1)]) (auto simp: returns_def intro: assms(2) [unfolded returns_def, rule_format])

lemma returns_result_ignored:
  assumes "returns P m (\<lambda>rc. P')" and "returns P' k Q"
  shows "returns P (result_ignored m k) Q"
  unfolding result_ignored_def
  by (rule returns_then_do [OF assms(1)]) (rule assms(2))

lemma returns_modify:
  assumes "returns P' k Q" and "\<And>w. P w \<Longrightarrow> P' (f w)"
  shows "returns P (modify f k) Q"
  using assms unfolding returns_def modify_def by simp

lemma returns_if:
  assumes "c \<Longrightarrow> returns P a Q" and "\<not> c \<Longrightarrow> returns P b Q"
  shows "returns P (if c then a else b) Q"
  using assms by simp

lemma returns_case_prod:
  assumes "\<And>a b. returns P (f a b) Q"
  shows "returns P (case_prod f p) Q"
  using assms by (cases p) simp

lemma returns_for_loop:
  assumes "\<And>i s. returns I (body i s) (\<lambda>c w. (\<exists>s'. c = Next s') \<and> I w)"
  shows "returns I (for_loop xs body s) (\<lambda>c w. (\<exists>s'. c = Next s') \<and> I w)"
proof (induction xs arbitrary: s)
  case Nil
  show ?case by (simp add: returns_def)
next
  case (Cons i xs)
  show ?case
    unfolding returns_def
  proof (intro allI impI)
    fix w assume "I w"
    then obtain s' w' where b: "body i s w = Ret (Next s') w'" and i: "I w'"
      using assms [of i s] unfolding returns_def by blast
    from Cons [of s'] i obtain a w'' where "for_loop xs body s' w' = Ret a w''"
      and "(\<exists>s''. a = Next s'') \<and> I w''"
      unfolding returns_def by blast
    then show "\<exists>a w'. for_loop (i # xs) body s w = Ret a w' \<and> (\<exists>s'. a = Next s') \<and> I w'"
      using b by simp
  qed
qed

lemma returns_RetD:
  assumes "returns P m Q" and "P w"
  shows "\<exists>a w'. m w = Ret a w' \<and> Q a w'"
  using assms unfolding returns_def by blast


lemma holds_checked:
  assumes "returns I m (\<lambda>rc w. rc = RFIDR_SUCCESS \<and> I w)" and "returns I k Q"
  shows "returns I (checked m on_error k) Q"
  using assms by (rule returns_checked)

lemma holds_result_ignored:
  assumes "returns I m (\<lambda>rc. I)" and "returns I k Q"
  shows "returns I (result_ignored m k) Q"
  using assms by (rule returns_result_ignored)

lemma holds_then_do:
  assumes "returns I m (\<lambda>a. I)" and "\<And>a. returns I (k a) Q"
  shows "returns I (then_do m k) Q"
  using assms by (rule returns_then_do)

lemma holds_modify:
  assumes "returns I k Q" and "\<And>w. I w \<Longrightarrow> I (f w)"
  shows "returns I (modify f k) Q"
  using assms by (rule returns_modify)

lemma returns_driver:
  assumes "\<forall>t. ans_err hw t = RFIDR_SUCCESS" and "stable ok I" and "ok (Call c)"
  shows "returns I (driver hw c) (\<lambda>rc w. rc = RFIDR_SUCCESS \<and> I w)"
  using assms by (simp add: returns_def driver_def stable_io)

lemma returns_driver':
  assumes "stable ok I" and "ok (Call c)"
  shows "returns I (driver hw c) (\<lambda>rc. I)"
  using assms by (simp add: returns_def driver_def stable_io)

lemma returns_spin_wait:
  assumes "\<forall>t. ans_flag hw t" and "stable ok I" and "incidental e"
  shows "returns I (spin_wait hw e) (\<lambda>u. I)"
  using assms by (simp add: returns_def spin_wait_def stable_io)

lemma returns_enable_pa:
  assumes "stable ok I"
  shows "returns I rfidr_enable_pa (\<lambda>rc w. rc = RFIDR_SUCCESS \<and> I w)"
  using assms by (simp add: returns_def rfidr_enable_pa_def stable_emit stable_fields)

lemma returns_disable_pa:
  assumes "stable ok I"
  shows "returns I rfidr_disable_pa (\<lambda>rc w. rc = RFIDR_SUCCESS \<and> I w)"
  using assms by (simp add: returns_def rfidr_disable_pa_def stable_emit stable_fields)

lemma returns_exit_code:
  assumes "\<forall>t. drop_bit 5 (ans_byte hw t) AND 7 \<noteq> 0" and "stable ok I"
  shows "returns I (read_radio_exit_code hw) (\<lambda>c w. c \<noteq> 0 \<and> I w)"
  using assms by (simp add: returns_def read_radio_exit_code_def then_do_def spi_read_def stable_io)

lemma returns_write_frequency_registers:
  assumes "\<forall>t. ans_err hw t = RFIDR_SUCCESS" and "stable ok I"
    and "\<And>a b. ok (Call (spi_cntrlr_write_sx1257_robust a b))"
  shows "returns I (write_frequency_registers hw code) (\<lambda>rc w. rc = RFIDR_SUCCESS \<and> I w)"
  unfolding write_frequency_registers_def Let_def
  by (intro holds_checked returns_driver [OF assms(1,2)] assms(3) returns_Ret) simp

lemma returns_set_sx1257_lna_gain:
  assumes "\<forall>t. ans_err hw t = RFIDR_SUCCESS" and "stable ok I"
    and "\<And>a b. ok (Call (spi_cntrlr_write_sx1257_robust a b))"
  shows "returns I (set_sx1257_lna_gain hw g) (\<lambda>rc. I)"
  unfolding set_sx1257_lna_gain_def
  by (intro holds_checked returns_driver [OF assms(1,2)] assms(3) returns_Ret) simp

lemma returns_end_inventory:
  assumes "\<forall>t. ans_err hw t = RFIDR_SUCCESS" and "\<forall>t. ans_flag hw t" and "stable ok I"
    and "ok (Call set_end_radio_fsm_loop)" and "ok (Call set_go_radio_oneshot)"
    and "ok (Call set_irq_ack_oneshot)"
  shows "returns I (end_inventory hw error_info) (\<lambda>rc w. rc = RFIDR_SUCCESS \<and> I w)"
  unfolding end_inventory_def
  by (intro holds_checked holds_then_do returns_spin_wait [OF assms(2,3)]
      returns_driver [OF assms(1,3)] returns_disable_pa [OF assms(3)] holds_modify returns_Ret assms)
    (simp_all add: keeps_led1 [OF assms(3)])

lemma stable_hopped_times: "stable no_hop (hopped_times n h)"
  unfolding stable_def hopped_times_def events_since_def emit_def consume_def hops_def no_hop_def
  by (auto elim: incidental.elims)

lemma returns_hop:
  assumes "\<forall>t. ans_err hw t = RFIDR_SUCCESS"
  shows "returns (hopped_times n h) (hop_sx1257_frequency hw)
           (\<lambda>a w. fst a = RFIDR_SUCCESS \<and> hopped_times n (Suc h) w)"
proof -
  have body: "returns (hopped_times n (Suc h))
      (then_do (write_frequency_registers hw code) (\<lambda>error_code. Ret (error_code, slot)))
      (\<lambda>a w. fst a = RFIDR_SUCCESS \<and> hopped_times n (Suc h) w)" for code slot
    by (rule returns_then_do [OF returns_write_frequency_registers [OF assms stable_hopped_times]])
      (simp_all add: no_hop_def returns_def)
  have start: "hopped_times n (Suc h)
      (emit (HopSx1257Frequency slot) (w\<lparr>m_sx1257_frequency_slot := slot\<rparr>))"
    if "hopped_times n h w" for w slot
    using that by (simp add: hopped_times_def events_since_def emit_def hops_def)
  show ?thesis
    unfolding returns_def hop_sx1257_frequency_def Let_def
    by (intro allI impI, rule body [unfolded returns_def, rule_format], rule start)
qed


lemma then_do_return: "then_do (Ret a) k = k a"
  by (rule ext) (simp add: then_do_def)

lemma inventory_slot_body_no_tag:
  assumes "\<forall>t. ans_err hw t = RFIDR_SUCCESS" and "\<forall>t. ans_flag hw t"
    and "\<forall>t. drop_bit 5 (ans_byte hw t) AND 7 \<noteq> 0"
  shows "returns (hopped_times n h) (inventory_slot_body hw error_info mx loop_iq slot i s)
           (\<lambda>c w. (\<exists>s'. c = Next s') \<and> hopped_times n h w)"
proof -
  note st = stable_hopped_times [of n h]
  have tail: "returns (\<lambda>w. exit_code \<noteq> 0 \<and> hopped_times n h w)
      (then_do (if exit_code = 0
                then inventory_tag_found hw error_info mx loop_iq slot (fst s)
                else Ret (Next (fst s)))
         (\<lambda>c. case c of
            Next r \<Rightarrow>
              if snd s = True \<and> i > 0
              then result_ignored (driver hw load_query_rep_packet) (Ret (Next (r, False)))
              else Ret (Next (r, snd s))
          | Break r \<Rightarrow> Ret (Break (r, snd s))
          | Return e r \<Rightarrow> Ret (Return e (r, snd s))))
      (\<lambda>c w. (\<exists>s'. c = Next s') \<and> hopped_times n h w)" for exit_code
  proof (rule returns_pure)
    assume "exit_code \<noteq> 0"
    then show "returns (hopped_times n h)
      (then_do (if exit_code = 0
                then inventory_tag_found hw error_info mx loop_iq slot (fst s)
                else Ret (Next (fst s)))
         (\<lambda>c. case c of
            Next r \<Rightarrow>
              if snd s = True \<and> i > 0
              then result_ignored (driver hw load_query_rep_packet) (Ret (Next (r, False)))
              else Ret (Next (r, snd s))
          | Break r \<Rightarrow> Ret (Break (r, snd s))
          | Return e r \<Rightarrow> Ret (Return e (r, snd s))))
      (\<lambda>c w. (\<exists>s'. c = Next s') \<and> hopped_times n h w)"
      by (simp add: then_do_return)
        (intro conjI impI holds_result_ignored returns_driver' [OF st] returns_Ret; auto simp: no_hop_def)
  qed
  show ?thesis
    unfolding inventory_slot_body_def
    by (intro returns_then_do [OF returns_exit_code [OF assms(3) st] tail]
        holds_checked holds_then_do returns_driver [OF assms(1) st]
        returns_spin_wait [OF assms(2) st]; simp add: no_hop_def)
qed

lemma inventory_iq_body_no_tag:
  assumes "\<forall>t. ans_err hw t = RFIDR_SUCCESS" and "\<forall>t. ans_flag hw t"
    and "\<forall>t. drop_bit 5 (ans_byte hw t) AND 7 \<noteq> 0"
  shows "returns (hopped_times n h) (inventory_iq_body hw error_info mx q slot loop_iq s)
           (\<lambda>c w. (\<exists>s'. c = Next s') \<and> hopped_times n h w)"
  unfolding inventory_iq_body_def
  by (intro holds_checked returns_driver [OF assms(1) stable_hopped_times]
      returns_for_loop inventory_slot_body_no_tag [OF assms]; simp add: no_hop_def)

lemma inventory_round_no_tag:
  assumes "\<forall>t. ans_err hw t = RFIDR_SUCCESS" and "\<forall>t. ans_flag hw t"
    and "\<forall>t. drop_bit 5 (ans_byte hw t) AND 7 \<noteq> 0"
  shows "returns (hopped_times n h) (inventory_round hw error_info mx c s)
           (\<lambda>c w. (\<exists>s'. c = Next s') \<and> hopped_times n (Suc h) w)"
proof -
  note st = stable_hopped_times [of n h]
  note st' = stable_hopped_times [of n "Suc h"]
  have fin: "returns (\<lambda>w. (\<exists>s'. c = Next s') \<and> hopped_times n (Suc h) w)
      (case c of
          Next s' \<Rightarrow>
            checked rfidr_disable_pa
              (\<lambda>rc. abort_inventory hw error_info ''disabling pa: '' rc (Return RFIDR_ERROR_GENERAL s'))
              (Ret (Next s'))
        | other \<Rightarrow> Ret other)
      (\<lambda>c w. (\<exists>s'. c = Next s') \<and> hopped_times n (Suc h) w)" for c :: "(rfidr_return_t \<times> bool) ctl"
  proof (rule returns_pure)
    assume "\<exists>s'. c = Next s'"
    then obtain s' where c: "c = Next s'" by blast
    show "returns (hopped_times n (Suc h))
      (case c of
          Next s' \<Rightarrow>
            checked rfidr_disable_pa
              (\<lambda>rc. abort_inventory hw error_info ''disabling pa: '' rc (Return RFIDR_ERROR_GENERAL s'))
              (Ret (Next s'))
        | other \<Rightarrow> Ret other)
      (\<lambda>c w. (\<exists>s'. c = Next s') \<and> hopped_times n (Suc h) w)"
      unfolding c ctl.case
      by (intro holds_checked returns_disable_pa [OF st'] returns_Ret) simp
  qed
  have rest: "returns (hopped_times n (Suc h))
      (then_do (for_loop [0, 1] (inventory_iq_body hw error_info mx q slot) s)
         (\<lambda>c. case c of
          Next s' \<Rightarrow>
            checked rfidr_disable_pa
              (\<lambda>rc. abort_inventory hw error_info ''disabling pa: '' rc (Return RFIDR_ERROR_GENERAL s'))
              (Ret (Next s'))
        | other \<Rightarrow> Ret other))
      (\<lambda>c w. (\<exists>s'. c = Next s') \<and> hopped_times n (Suc h) w)" for q slot
    by (rule returns_then_do [OF returns_for_loop [OF inventory_iq_body_no_tag [OF assms]] fin])
  have after_hop: "returns (\<lambda>w. fst a = RFIDR_SUCCESS \<and> hopped_times n (Suc h) w)
      ((\<lambda>(rc, recover_frequency_slot).
     modify (\<lambda>w. w\<lparr>m_hopskip_nonce := m_hopskip_nonce w + 1\<rparr>)
      (if rc \<noteq> RFIDR_SUCCESS
       then abort_inventory hw error_info ''hopping frequency'' rc (Return RFIDR_ERROR_GENERAL s)
       else
     checked (driver hw (load_query_packet_only FLAGSWAP_NO))
       (\<lambda>rc. abort_inventory hw error_info ''loading query'' rc (Return RFIDR_ERROR_GENERAL s))
    (checked rfidr_enable_pa
       (\<lambda>rc. abort_inventory hw error_info ''enabling pa'' rc (Return RFIDR_ERROR_GENERAL s))
    (then_do (for_loop [0, 1]
                (inventory_iq_body hw error_info mx (q_value_of c) recover_frequency_slot) s)
       (\<lambda>c. case c of
          Next s' \<Rightarrow>
            checked rfidr_disable_pa
              (\<lambda>rc. abort_inventory hw error_info ''disabling pa: '' rc (Return RFIDR_ERROR_GENERAL s'))
              (Ret (Next s'))
        | other \<Rightarrow> Ret other))))) a)
      (\<lambda>c w. (\<exists>s'. c = Next s') \<and> hopped_times n (Suc h) w)" for a
  proof (rule returns_pure)
    assume ok: "fst a = RFIDR_SUCCESS"
    obtain rc slot where a: "a = (rc, slot)" by (cases a)
    show "returns (hopped_times n (Suc h))
      ((\<lambda>(rc, recover_frequency_slot).
     modify (\<lambda>w. w\<lparr>m_hopskip_nonce := m_hopskip_nonce w + 1\<rparr>)
      (if rc \<noteq> RFIDR_SUCCESS
       then abort_inventory hw error_info ''hopping frequency'' rc (Return RFIDR_ERROR_GENERAL s)
       else
     checked (driver hw (load_query_packet_only FLAGSWAP_NO))
       (\<lambda>rc. abort_inventory hw error_info ''loading query'' rc (Return RFIDR_ERROR_GENERAL s))
    (checked rfidr_enable_pa
       (\<lambda>rc. abort_inventory hw error_info ''enabling pa'' rc (Return RFIDR_ERROR_GENERAL s))
    (then_do (for_loop [0, 1]
                (inventory_iq_body hw error_info mx (q_value_of c) recover_frequency_slot) s)
       (\<lambda>c. case c of
          Next s' \<Rightarrow>
            checked rfidr_disable_pa
              (\<lambda>rc. abort_inventory hw error_info ''disabling pa: '' rc (Return RFIDR_ERROR_GENERAL s'))
              (Ret (Next s'))
        | other \<Rightarrow> Ret other))))) a)
      (\<lambda>c w. (\<exists>s'. c = Next s') \<and> hopped_times n (Suc h) w)"
      using ok unfolding a prod.case fst_conv
      apply (simp only: simp_thms if_False)
      apply (rule holds_modify)
       apply (intro rest holds_checked returns_driver [OF assms(1) st'] returns_enable_pa [OF st'];
          simp add: no_hop_def)
      apply (simp add: hopped_times_def events_since_def)
      done
  qed
  show ?thesis
    unfolding inventory_round_def
    apply (rule holds_modify)
     apply (rule holds_result_ignored [OF returns_driver' [OF st]])
      apply (simp add: no_hop_def)
     apply (rule returns_then_do [OF returns_hop [OF assms(1)] after_hop])
    apply (simp add: keeps_led1 [OF st])
    done
qed


lemma inventory_rounds_no_tag:
  assumes "\<forall>t. ans_err hw t = RFIDR_SUCCESS" and "\<forall>t. ans_flag hw t"
    and "\<forall>t. drop_bit 5 (ans_byte hw t) AND 7 \<noteq> 0"
    and "v QUERY_ROUND_LIMIT = 0"
  shows "unat i \<le> QUERY_ROUND_LIMIT \<Longrightarrow> QUERY_ROUND_LIMIT - unat i < fuel \<Longrightarrow>
     returns (hopped_times n h) (inventory_rounds fuel hw error_info v mx i s)
       (\<lambda>c w. (\<exists>s'. c = Next s') \<and> hopped_times n (h + (QUERY_ROUND_LIMIT - unat i)) w)"
proof (induction fuel arbitrary: i h s)
  case 0
  then show ?case by simp
next
  case (Suc fuel)
  show ?case
  proof (cases "unat i < QUERY_ROUND_LIMIT")
    case True
    have u: "unat (i + 1) = unat i + 1"
      using True unat_add_lem [of i 1] by (simp add: QUERY_ROUND_LIMIT_def)
    have next_round: "returns (\<lambda>w. (\<exists>s'. c = Next s') \<and> hopped_times n (Suc h) w)
        (case c of
           Next s' \<Rightarrow> inventory_rounds fuel hw error_info v mx (i + 1) s'
         | other \<Rightarrow> Ret other)
        (\<lambda>c w. (\<exists>s'. c = Next s') \<and> hopped_times n (h + (QUERY_ROUND_LIMIT - unat i)) w)"
      for c :: "(rfidr_return_t \<times> bool) ctl"
    proof (rule returns_pure)
      assume "\<exists>s'. c = Next s'"
      then obtain s' where c: "c = Next s'" by blast
      have eq: "h + (QUERY_ROUND_LIMIT - unat i) = Suc h + (QUERY_ROUND_LIMIT - unat (i + 1))"
        using True by (simp add: u)
      show "returns (hopped_times n (Suc h))
          (case c of
             Next s' \<Rightarrow> inventory_rounds fuel hw error_info v mx (i + 1) s'
           | other \<Rightarrow> Ret other)
          (\<lambda>c w. (\<exists>s'. c = Next s') \<and> hopped_times n (h + (QUERY_ROUND_LIMIT - unat i)) w)"
        unfolding c ctl.case eq
        using Suc.prems True by (intro Suc.IH) (simp_all add: u)
    qed
    show ?thesis
      unfolding inventory_rounds.simps
      using True
      by (simp only: simp_thms if_True)
        (rule returns_then_do [OF inventory_round_no_tag [OF assms(1-3)] next_round])
  next
    case False
    then have "unat i = QUERY_ROUND_LIMIT" using Suc.prems by simp
    then show ?thesis
      using assms(4) by (simp add: returns_def)
  qed
qed

lemma returns_read_length:
  assumes "stable ok I" and "ok (Call read_length_app_specd_target_epc)"
  shows "returns I (read_length_of_app_specd_target_epc hw) (\<lambda>a. I)"
  using assms by (simp add: returns_def read_length_of_app_specd_target_epc_def stable_io)

lemma inventory_core_no_tag:
  assumes "\<forall>t. ans_err hw t = RFIDR_SUCCESS" and "\<forall>t. ans_flag hw t"
    and "\<forall>t. drop_bit 5 (ans_byte hw t) AND 7 \<noteq> 0"
    and "v QUERY_ROUND_LIMIT = 0" and "QUERY_ROUND_LIMIT < fuel"
  shows "returns (\<lambda>w'. w' = w) (inventory_core fuel hw error_info session v mx r)
           (\<lambda>a w'. fst a = RFIDR_SUCCESS \<and> hops (new_events w w') = QUERY_ROUND_LIMIT)"
proof -
  define n where "n = length (trace w)"
  note st = stable_hopped_times [of n 0]
  note st' = stable_hopped_times [of n QUERY_ROUND_LIMIT]
  have fin: "returns (\<lambda>w. (\<exists>s'. c = Next s') \<and> hopped_times n QUERY_ROUND_LIMIT w)
      (case c of
          Return e s \<Rightarrow> Ret (e, fst s)
        | Break s \<Rightarrow> Ret (RFIDR_SUCCESS, fst s)
        | Next s \<Rightarrow>
            checked (end_inventory hw ''End Inv.'')
              (\<lambda>rc. fail_with hw error_info ''ending inventory'' rc (RFIDR_ERROR_GENERAL, fst s))
           (modify rfidr_enable_led1
           (modify (\<lambda>w. send_short_message hw ''InventryFnd %03dTags''
                           [uint (m_num_inv_tags_found w AND 255)] w)
           (Ret (RFIDR_SUCCESS, fst s)))))
      (\<lambda>a w. fst a = RFIDR_SUCCESS \<and> hopped_times n QUERY_ROUND_LIMIT w)"
    for c :: "(rfidr_return_t \<times> bool) ctl"
  proof (rule returns_pure)
    assume "\<exists>s'. c = Next s'"
    then obtain s' where c: "c = Next s'" by blast
    show "returns (hopped_times n QUERY_ROUND_LIMIT)
      (case c of
          Return e s \<Rightarrow> Ret (e, fst s)
        | Break s \<Rightarrow> Ret (RFIDR_SUCCESS, fst s)
        | Next s \<Rightarrow>
            checked (end_inventory hw ''End Inv.'')
              (\<lambda>rc. fail_with hw error_info ''ending inventory'' rc (RFIDR_ERROR_GENERAL, fst s))
           (modify rfidr_enable_led1
           (modify (\<lambda>w. send_short_message hw ''InventryFnd %03dTags''
                           [uint (m_num_inv_tags_found w AND 255)] w)
           (Ret (RFIDR_SUCCESS, fst s)))))
      (\<lambda>a w. fst a = RFIDR_SUCCESS \<and> hopped_times n QUERY_ROUND_LIMIT w)"
      unfolding c ctl.case
      by (intro holds_checked returns_end_inventory [OF assms(1,2) st'] holds_modify returns_Ret)
        (simp_all add: no_hop_def keeps_led1 [OF st'] keeps_short_message [OF st'])
  qed
  have rounds: "returns (hopped_times n 0)
      (then_do (inventory_rounds fuel hw error_info v mx 0 (r, True))
       (\<lambda>c. case c of
          Return e s \<Rightarrow> Ret (e, fst s)
        | Break s \<Rightarrow> Ret (RFIDR_SUCCESS, fst s)
        | Next s \<Rightarrow>
            checked (end_inventory hw ''End Inv.'')
              (\<lambda>rc. fail_with hw error_info ''ending inventory'' rc (RFIDR_ERROR_GENERAL, fst s))
           (modify rfidr_enable_led1
           (modify (\<lambda>w. send_short_message hw ''InventryFnd %03dTags''
                           [uint (m_num_inv_tags_found w AND 255)] w)
           (Ret (RFIDR_SUCCESS, fst s))))))
      (\<lambda>a w. fst a = RFIDR_SUCCESS \<and> hopped_times n QUERY_ROUND_LIMIT w)"
    using inventory_rounds_no_tag [where v = v and hw = hw and i = 0 and fuel = fuel and n = n and h = 0
        and s = "(r, True)" and error_info = error_info and mx = mx, OF assms(1-4)] assms(5)
    by (intro returns_then_do [OF _ fin]) simp
  have "returns (\<lambda>w'. w' = w) (inventory_core fuel hw error_info session v mx r)
      (\<lambda>a w. fst a = RFIDR_SUCCESS \<and> hopped_times n QUERY_ROUND_LIMIT w)"
    unfolding inventory_core_def
    apply (rule returns_modify [where P' = "hopped_times n 0"])
     apply (intro rounds holds_result_ignored holds_then_do holds_checked returns_case_prod
        returns_driver [OF assms(1) st] returns_driver' [OF st] returns_read_length [OF st]
        returns_set_sx1257_lna_gain [OF assms(1) st]; simp add: no_hop_def)
    apply (simp add: hopped_times_def events_since_def n_def hops_def)
    done
  then show ?thesis
    by (rule returns_weaken) (simp_all add: hopped_times_def events_since_def new_events_def n_def)
qed

text \<open>Claim C2 says that \<open>inventory_core\<close> runs one query round per element of the Query-Q
  vector and stops at its null terminator. The loop condition is
  \<open>(*(query_q_vector+loop_query_q) != 0) || loop_query_q < QUERY_ROUND_LIMIT\<close>, so the loop goes
  on while either holds. With a hardware peer whose commands succeed, whose interrupts arrive
  and that reports no tag, and a zero byte at offset \<open>QUERY_ROUND_LIMIT\<close> from the pointer,
  \<open>inventory_core\<close> returns \<open>RFIDR_SUCCESS\<close> after hopping the frequency, once per round,
  exactly \<open>QUERY_ROUND_LIMIT\<close> times, whatever the vector holds before that offset.\<close>

theorem inventory_core_round_count:
  assumes "\<forall>t. ans_err hw t = RFIDR_SUCCESS" and "\<forall>t. ans_flag hw t"
    and "\<forall>t. drop_bit 5 (ans_byte hw t) AND 7 \<noteq> 0"
    and "query_q_vector QUERY_ROUND_LIMIT = 0" and "QUERY_ROUND_LIMIT < fuel"
  shows "\<exists>r' w'. inventory_core fuel hw error_info session query_q_vector max_tags r w
                   = Ret (RFIDR_SUCCESS, r') w'
               \<and> hops (new_events w w') = QUERY_ROUND_LIMIT"
  using returns_RetD [OF inventory_core_no_tag [where v = query_q_vector and hw = hw and fuel = fuel
        and w = w and error_info = error_info and session = session and mx = max_tags and r = r,
        OF assms], of w]
  by auto

theorem inventory_core_round_count_witness:
  "\<exists>r' w'. inventory_core 37 (hw_const RFIDR_SUCCESS 0 0xFF True) ''inventorying'' SESSION_S2
              (c_string ''3'') 51 blank_return_struct boot_world
            = Ret (RFIDR_SUCCESS, r') w'
        \<and> hops (new_events boot_world w') = 36"
  using inventory_core_round_count [of "hw_const RFIDR_SUCCESS 0 0xFF True" "c_string ''3''" 37
      "''inventorying''" SESSION_S2 51 blank_return_struct boot_world]
  by (simp add: hw_const_def c_string_def QUERY_ROUND_LIMIT_def)

section \<open>The cleanup of \<open>inventory_core\<close>\<close>




























end
